theory Spec2Isabelle
  imports Main
begin

section \<open>Statement queries of the dashboard (pkg/apiserver/statement/queries.go)\<close>

text \<open>
  The file under verification talks to a TiDB store through a gorm handle. Go values are
  modelled as follows: \<open>string\<close> is a byte list, Go's \<open>int\<close> is a mathematical integer
  (the code does no arithmetic on it; the 64-bit range is checked where \<open>strconv.Atoi\<close>
  produces it), an \<open>error\<close> return is a value of the datatype \<open>error\<close>, and a run-time
  panic is the outcome \<open>Panic\<close>.
\<close>

subsection \<open>Errors and outcomes\<close>

datatype error =
    StoreError string
  | NumError string
  | ResolverError string
  | UnknownFieldError
  | ErrRecordNotFound

datatype 'a result = Ok 'a | Err error | Panic

subsection \<open>Constants of the file\<close>

definition statementsTable :: string where
  "statementsTable = ''INFORMATION_SCHEMA.CLUSTER_STATEMENTS_SUMMARY_HISTORY''"

definition stmtEnableVar :: string where
  "stmtEnableVar = ''tidb_enable_stmt_summary''"

definition stmtRefreshIntervalVar :: string where
  "stmtRefreshIntervalVar = ''tidb_stmt_summary_refresh_interval''"

definition stmtHistorySizeVar :: string where
  "stmtHistorySizeVar = ''tidb_stmt_summary_history_size''"

subsection \<open>The store handle\<close>

text \<open>
  A value bound to a \<open>?\<close> placeholder of a statement.
\<close>

datatype sqlval = SQLBool bool | SQLInt int

text \<open>
  A row of the statement summary history table, with the columns this file names. The two
  window bounds are whole seconds since the epoch, which is what \<open>FROM_UNIXTIME(?)\<close> of
  the integer parameters is compared with.
\<close>

record Row =
  summary_begin_time :: int
  summary_end_time :: int
  schema_name :: string
  digest :: string
  digest_text :: string
  table_names :: string
  stmt_type :: string
  plan :: string
  plan_digest :: string
  sum_latency :: int

text \<open>
  The conditions this file hands to \<open>Where\<close>. A constructor stands for the fixed SQL text
  of the call, its arguments are the values bound to the \<open>?\<close> placeholders, in order:
  \<^item> \<open>SummaryWithin b e\<close>:
    \<open>summary_begin_time >= FROM_UNIXTIME(?) AND summary_end_time <= FROM_UNIXTIME(?)\<close>;
  \<^item> \<open>TableNamesRegexp p\<close>: \<open>table_names REGEXP ?\<close>;
  \<^item> \<open>StmtTypeIn ts\<close>: \<open>stmt_type in (?)\<close>;
  \<^item> \<open>TextRegexp v1 v2 v3 v4 v5\<close>: \<open>LOWER(digest_text) REGEXP ? OR LOWER(digest) REGEXP ?
    OR LOWER(schema_name) REGEXP ? OR LOWER(table_names) REGEXP ? OR LOWER(plan) REGEXP ?\<close>;
  \<^item> \<open>SchemaNameEq x\<close>: \<open>schema_name = ?\<close>;
  \<^item> \<open>DigestEq x\<close>: \<open>digest = ?\<close>;
  \<^item> \<open>PlanDigestIn ps\<close>: \<open>plan_digest in (?)\<close>.
\<close>

datatype cond =
    SummaryWithin int int
  | TableNamesRegexp string
  | StmtTypeIn "string list"
  | TextRegexp string string string string string
  | SchemaNameEq string
  | DigestEq string
  | PlanDigestIn "string list"

text \<open>The columns named in \<open>Group(...)\<close> and the one ordering used, \<open>agg_sum_latency DESC\<close>.\<close>

datatype column = Schema_name | Digest | Plan_digest

datatype ordering = Agg_sum_latency_DESC

text \<open>
  The query a chain of gorm calls builds: \<open>Select\<close>, \<open>Table\<close>, the \<open>Where\<close> conditions in
  the order of the calls (gorm joins them with AND), \<open>Group\<close> and \<open>Order\<close>.
\<close>

record Query =
  q_select :: string
  q_table :: string
  q_where :: "cond list"
  q_group :: "column list"
  q_order :: "ordering option"

text \<open>
  Statements this file sends to the store: \<open>db.Raw(sql).Pluck("value", &values)\<close>,
  \<open>db.Exec(sql, value)\<close>, and a built query run by \<open>Find\<close> or \<open>Scan\<close>.
\<close>

datatype stmt =
    RawPluck string
  | Exec string sqlval
  | Find Query
  | Scan Query

text \<open>
  The handle \<open>db\<close>: how the store answers each statement (the answers are the store's, any
  statement may fail), the rows of the statement table, the store's \<open>REGEXP\<close> operator
  (pattern, then subject) and \<open>LOWER\<close> function, and the log of the statements issued so
  far, oldest first.
\<close>

record DB =
  raw_pluck :: "string \<Rightarrow> error + string list"
  exec_error :: "string \<Rightarrow> sqlval \<Rightarrow> error option"
  select_error :: "Query \<Rightarrow> error option"
  table_rows :: "Row list"
  REGEXP :: "string \<Rightarrow> string \<Rightarrow> bool"
  LOWER :: "string \<Rightarrow> string"
  log :: "stmt list"

definition db_RawPluck :: "DB \<Rightarrow> string \<Rightarrow> (error + string list) \<times> DB" where
  "db_RawPluck db sql = (raw_pluck db sql, db\<lparr>log := log db @ [RawPluck sql]\<rparr>)"

definition db_Exec :: "DB \<Rightarrow> string \<Rightarrow> sqlval \<Rightarrow> error option \<times> DB" where
  "db_Exec db sql v = (exec_error db sql v, db\<lparr>log := log db @ [Exec sql v]\<rparr>)"

subsection \<open>strconv.Atoi\<close>

definition digit_chars :: string where
  "digit_chars = ''0123456789''"

definition isDigit :: "char \<Rightarrow> bool" where
  "isDigit c = (c \<in> set digit_chars)"

definition digitVal :: "char \<Rightarrow> int" where
  "digitVal c = (case map_of (zip digit_chars [0, 1, 2, 3, 4, 5, 6, 7, 8, 9]) c of
                   Some d \<Rightarrow> d | None \<Rightarrow> 0)"

definition decimal :: "string \<Rightarrow> int" where
  "decimal ds = foldl (\<lambda>n c. n * 10 + digitVal c) 0 ds"

text \<open>
  \<open>strconv.Atoi\<close> on a 64-bit platform: an optional sign, then at least one decimal digit
  and nothing else; a value outside \<open>[-2^63, 2^63 - 1]\<close> is an error. Both failures are a
  \<open>*NumError\<close> naming the input.
\<close>

definition Atoi :: "string \<Rightarrow> error + int" where
  "Atoi s =
     (let neg = (s \<noteq> [] \<and> hd s = CHR ''-'');
          ds = (if s \<noteq> [] \<and> (hd s = CHR ''-'' \<or> hd s = CHR ''+'') then tl s else s)
      in if ds = [] \<or> \<not> list_all isDigit ds then Inl (NumError s)
         else let n = decimal ds
              in if neg then (if n > 2 ^ 63 then Inl (NumError s) else Inr (- n))
                 else (if n \<ge> 2 ^ 63 then Inl (NumError s) else Inr n))"

subsection \<open>Configuration accessor\<close>

record Config =
  Enable :: bool
  RefreshInterval :: int
  HistorySize :: int

text \<open>\<open>fmt.Sprintf("SELECT @@GLOBAL.%s as value", name)\<close>\<close>

definition selectGlobalSQL :: "string \<Rightarrow> string" where
  "selectGlobalSQL name = ''SELECT @@GLOBAL.'' @ name @ '' as value''"

text \<open>\<open>fmt.Sprintf("SET GLOBAL %s = ?", name)\<close>\<close>

definition setGlobalSQL :: "string \<Rightarrow> string" where
  "setGlobalSQL name = ''SET GLOBAL '' @ name @ '' = ?''"

text \<open>
  \<open>querySQLIntVariable\<close> (lines 34-50). \<open>values[0]\<close> is read with no check of the length:
  on an empty \<open>values\<close> Go panics with an index out of range.
\<close>

definition querySQLIntVariable :: "DB \<Rightarrow> string \<Rightarrow> int result \<times> DB" where
  "querySQLIntVariable db name =
     (let sql = selectGlobalSQL name;
          (r, db') = db_RawPluck db sql
      in case r of
           Inl err \<Rightarrow> (Err err, db')
         | Inr values \<Rightarrow>
             (case values of
                [] \<Rightarrow> (Panic, db')
              | strVal # _ \<Rightarrow>
                  if strVal = [] then (Ok (- 1), db')
                  else (case Atoi strVal of
                          Inl err \<Rightarrow> (Err err, db')
                        | Inr intVal \<Rightarrow> (Ok intVal, db'))))"

text \<open>\<open>queryStmtConfig\<close> (lines 52-82).\<close>

definition queryStmtConfig :: "DB \<Rightarrow> Config result \<times> DB" where
  "queryStmtConfig db =
     (case querySQLIntVariable db stmtEnableVar of
        (Err err, db1) \<Rightarrow> (Err err, db1)
      | (Panic, db1) \<Rightarrow> (Panic, db1)
      | (Ok enable, db1) \<Rightarrow>
          (case querySQLIntVariable db1 stmtRefreshIntervalVar of
             (Err err, db2) \<Rightarrow> (Err err, db2)
           | (Panic, db2) \<Rightarrow> (Panic, db2)
           | (Ok refreshInterval, db2) \<Rightarrow>
               (case querySQLIntVariable db2 stmtHistorySizeVar of
                  (Err err, db3) \<Rightarrow> (Err err, db3)
                | (Panic, db3) \<Rightarrow> (Panic, db3)
                | (Ok historySize, db3) \<Rightarrow>
                    (Ok \<lparr> Enable = (enable \<noteq> 0),
                          RefreshInterval = (if refreshInterval = - 1 then 1800 else refreshInterval),
                          HistorySize = (if historySize = - 1 then 24 else historySize) \<rparr>,
                     db3))))"

text \<open>
  \<open>updateStmtConfig\<close> (lines 84-100). The result is the final value of the named return
  \<open>err\<close> (\<open>None\<close> is nil). The error of the first \<open>Exec\<close> is assigned to \<open>err\<close> and, when
  \<open>config.Enable\<close> holds, overwritten by the second \<open>Exec\<close> without having been looked at.
\<close>

definition updateStmtConfig :: "DB \<Rightarrow> Config \<Rightarrow> error option \<times> DB" where
  "updateStmtConfig db config =
     (let (err, db1) = db_Exec db (setGlobalSQL stmtEnableVar) (SQLBool (Enable config))
      in if Enable config then
           (let (err, db2) = db_Exec db1 (setGlobalSQL stmtRefreshIntervalVar)
                                (SQLInt (RefreshInterval config))
            in if err \<noteq> None then (err, db2)
               else db_Exec db2 (setGlobalSQL stmtHistorySizeVar) (SQLInt (HistorySize config)))
         else (err, db1))"

subsection \<open>Go string functions\<close>

text \<open>
  \<open>strings.ToLower\<close> and \<open>strings.Fields\<close> take one of two paths. On a string of ASCII
  bytes only they work on the bytes: the letters \<open>A\<close> to \<open>Z\<close> are lowered and every other
  byte is kept; the white space is tab, line feed, vertical tab, form feed, carriage
  return and space. On a string with a byte of \<open>0x80\<close> or more they work on the runes, with
  the tables of Go's \<open>unicode\<close> package: \<open>strings.Map(unicode.ToLower, s)\<close> and
  \<open>strings.FieldsFunc(s, unicode.IsSpace)\<close>. The tables are not part of this development:
  the two rune paths are the fields of the record \<open>Unicode\<close>, which the functions below
  take as their first argument.
\<close>

record Unicode =
  Map_unicode_ToLower :: "string \<Rightarrow> string"
  FieldsFunc_unicode_IsSpace :: "string \<Rightarrow> string list"

definition isAscii :: "char \<Rightarrow> bool" where
  "isAscii c = ((of_char c :: nat) < 128)"

definition upper_chars :: string where
  "upper_chars = ''ABCDEFGHIJKLMNOPQRSTUVWXYZ''"

definition lower_chars :: string where
  "lower_chars = ''abcdefghijklmnopqrstuvwxyz''"

definition toLowerChar :: "char \<Rightarrow> char" where
  "toLowerChar c = (case map_of (zip upper_chars lower_chars) c of Some d \<Rightarrow> d | None \<Rightarrow> c)"

definition strings_ToLower :: "Unicode \<Rightarrow> string \<Rightarrow> string" where
  "strings_ToLower uc s =
     (if list_all isAscii s then map toLowerChar s else Map_unicode_ToLower uc s)"

definition isSpace :: "char \<Rightarrow> bool" where
  "isSpace c = (c \<in> set [CHR 0x09, CHR 0x0A, CHR 0x0B, CHR 0x0C, CHR 0x0D, CHR 0x20])"

text \<open>
  The scan of \<open>strings.Fields\<close> over ASCII bytes: \<open>cur\<close> is the field being read, empty
  between fields.
\<close>

fun fieldsFrom :: "string \<Rightarrow> string \<Rightarrow> string list" where
  "fieldsFrom cur [] = (if cur = [] then [] else [cur])"
| "fieldsFrom cur (c # cs) =
     (if isSpace c then (if cur = [] then fieldsFrom [] cs else cur # fieldsFrom [] cs)
      else fieldsFrom (cur @ [c]) cs)"

definition strings_Fields :: "Unicode \<Rightarrow> string \<Rightarrow> string list" where
  "strings_Fields uc s =
     (if list_all isAscii s then fieldsFrom [] s else FieldsFunc_unicode_IsSpace uc s)"

fun strings_Join :: "string list \<Rightarrow> string \<Rightarrow> string" where
  "strings_Join [] sep = []"
| "strings_Join [a] sep = a"
| "strings_Join (a # b # rest) sep = a @ sep @ strings_Join (b # rest) sep"

subsection \<open>Regular expressions\<close>

text \<open>
  \<open>regexp.QuoteMeta\<close> puts a backslash before each of the bytes \<open>\.+*?()|[]{}^$\<close>.
\<close>

definition backslash :: char where
  "backslash = CHR 0x5C"

definition special :: "char \<Rightarrow> bool" where
  "special c = (c \<in> set (backslash # ''.+*?()|[]{}^$''))"

fun QuoteMeta :: "string \<Rightarrow> string" where
  "QuoteMeta [] = []"
| "QuoteMeta (c # cs) = (if special c then backslash # c # QuoteMeta cs else c # QuoteMeta cs)"

text \<open>
  The store evaluates \<open>REGEXP\<close> with Go's regexp syntax. The part of that syntax the
  schema patterns of this file are written in is modelled: a literal byte, a backslash
  before an ASCII byte that is no letter and no digit (that byte, literally), \<open>\b\<close> (an
  ASCII word boundary) and the alternation bar. A pattern with anything else (an
  unescaped metacharacter, another escape) is outside this model: \<open>tokens\<close> is \<open>None\<close>.
\<close>

datatype token = TWordBoundary | TLit char | TBar

definition bar :: char where
  "bar = CHR ''|''"

definition isWordChar :: "char \<Rightarrow> bool" where
  "isWordChar c =
     (c \<in> set ''0123456789ABCDEFGHIJKLMNOPQRSTUVWXYZ_abcdefghijklmnopqrstuvwxyz'')"

definition isAlnum :: "char \<Rightarrow> bool" where
  "isAlnum c = (isWordChar c \<and> c \<noteq> CHR ''_'')"

fun tokens :: "string \<Rightarrow> token list option" where
  "tokens [] = Some []"
| "tokens [c] =
     (if c = backslash then None
      else if c = bar then Some [TBar]
      else if special c then None
      else Some [TLit c])"
| "tokens (c # d # cs) =
     (if c = backslash then
        (if d = CHR ''b'' then map_option ((#) TWordBoundary) (tokens cs)
         else if isAscii d \<and> \<not> isAlnum d then map_option ((#) (TLit d)) (tokens cs)
         else None)
      else if c = bar then map_option ((#) TBar) (tokens (d # cs))
      else if special c then None
      else map_option ((#) (TLit c)) (tokens (d # cs)))"

text \<open>The alternatives of a pattern: the token list cut at each bar.\<close>

fun branches :: "token list \<Rightarrow> token list list" where
  "branches [] = [[]]"
| "branches (t # ts) =
     (if t = TBar then [] # branches ts
      else (case branches ts of [] \<Rightarrow> [[t]] | b # bs \<Rightarrow> (t # b) # bs))"

text \<open>
  Matching a sequence at a position of the subject: \<open>prev\<close> is the byte before the
  position (none at the start), \<open>rest\<close> is the subject from the position on. \<open>\b\<close> holds
  where exactly one of the two neighbours is a word byte.
\<close>

definition isWordAt :: "char option \<Rightarrow> bool" where
  "isWordAt x = (case x of None \<Rightarrow> False | Some c \<Rightarrow> isWordChar c)"

definition nextChar :: "string \<Rightarrow> char option" where
  "nextChar rest = (case rest of [] \<Rightarrow> None | c # _ \<Rightarrow> Some c)"

fun match_here :: "token list \<Rightarrow> char option \<Rightarrow> string \<Rightarrow> bool" where
  "match_here [] prev rest = True"
| "match_here (TWordBoundary # ts) prev rest =
     (isWordAt prev \<noteq> isWordAt (nextChar rest) \<and> match_here ts prev rest)"
| "match_here (TLit c # ts) prev [] = False"
| "match_here (TLit c # ts) prev (d # ds) = (c = d \<and> match_here ts (Some d) ds)"
| "match_here (TBar # ts) prev rest = False"

text \<open>\<open>REGEXP\<close> searches: the pattern may match at any position of the subject.\<close>

fun search :: "token list \<Rightarrow> char option \<Rightarrow> string \<Rightarrow> bool" where
  "search ts prev [] = match_here ts prev []"
| "search ts prev (d # ds) = (match_here ts prev (d # ds) \<or> search ts (Some d) ds)"

definition regexp_like :: "string \<Rightarrow> string \<Rightarrow> bool" where
  "regexp_like pat subject =
     (case tokens pat of
        None \<Rightarrow> False
      | Some ts \<Rightarrow> list_ex (\<lambda>b. search b None subject) (branches ts))"

subsection \<open>Running a query\<close>

text \<open>
  When a row satisfies a condition; \<open>rx\<close> is the store's \<open>REGEXP\<close> operator and \<open>lower\<close> its
  \<open>LOWER\<close> function.
\<close>

fun holds ::
    "(string \<Rightarrow> string \<Rightarrow> bool) \<Rightarrow> (string \<Rightarrow> string) \<Rightarrow> Row \<Rightarrow> cond \<Rightarrow> bool" where
  "holds rx lower r (SummaryWithin b e) =
     (summary_begin_time r \<ge> b \<and> summary_end_time r \<le> e)"
| "holds rx lower r (TableNamesRegexp p) = rx p (table_names r)"
| "holds rx lower r (StmtTypeIn ts) = (stmt_type r \<in> set ts)"
| "holds rx lower r (TextRegexp v1 v2 v3 v4 v5) =
     (rx v1 (lower (digest_text r))
      \<or> rx v2 (lower (digest r))
      \<or> rx v3 (lower (schema_name r))
      \<or> rx v4 (lower (table_names r))
      \<or> rx v5 (lower (plan r)))"
| "holds rx lower r (SchemaNameEq x) = (schema_name r = x)"
| "holds rx lower r (DigestEq x) = (digest r = x)"
| "holds rx lower r (PlanDigestIn ps) = (plan_digest r \<in> set ps)"

definition selected :: "DB \<Rightarrow> Query \<Rightarrow> Row list" where
  "selected db q =
     filter (\<lambda>r. list_all (holds (REGEXP db) (LOWER db) r) (q_where q)) (table_rows db)"

text \<open>
  Modelled from the spec: the struct \<open>Model\<close> (declared in models.go, not in this file), "an
  open-ended mapping from column name to scalar value". Kept here: the grouping columns
  and the aggregate \<open>agg_sum_latency\<close> the queries of this file order by. The zero value is
  what a named Go result holds before anything is scanned into it.
\<close>

record Model =
  AggSchemaName :: string
  AggDigest :: string
  AggPlanDigest :: string
  AggSumLatency :: int

definition zero_Model :: Model where
  "zero_Model = \<lparr> AggSchemaName = [], AggDigest = [], AggPlanDigest = [], AggSumLatency = 0 \<rparr>"

text \<open>
  One result row for a non-empty group of table rows: the grouping columns of its first
  row and the sum of \<open>sum_latency\<close> over the group.
\<close>

definition aggregate :: "Row list \<Rightarrow> Model" where
  "aggregate rs =
     (case rs of
        [] \<Rightarrow> zero_Model
      | r # _ \<Rightarrow> \<lparr> AggSchemaName = schema_name r, AggDigest = digest r,
                   AggPlanDigest = plan_digest r,
                   AggSumLatency = sum_list (map sum_latency rs) \<rparr>)"

fun column_value :: "column \<Rightarrow> Row \<Rightarrow> string" where
  "column_value Schema_name r = schema_name r"
| "column_value Digest r = digest r"
| "column_value Plan_digest r = plan_digest r"

definition group_key :: "column list \<Rightarrow> Row \<Rightarrow> string list" where
  "group_key cols r = map (\<lambda>c. column_value c r) cols"

text \<open>
  \<open>GROUP BY\<close>: one group for each distinct key among the rows; with no \<open>GROUP BY\<close> every row
  is a result row of its own.
\<close>

definition group_rows :: "column list \<Rightarrow> Row list \<Rightarrow> Row list list" where
  "group_rows cols rs =
     (if cols = [] then map (\<lambda>r. [r]) rs
      else map (\<lambda>k. filter (\<lambda>r. group_key cols r = k) rs) (remdups (map (group_key cols) rs)))"

fun order_rows :: "ordering option \<Rightarrow> Model list \<Rightarrow> Model list" where
  "order_rows None ms = ms"
| "order_rows (Some Agg_sum_latency_DESC) ms = sort_key (\<lambda>m. - AggSumLatency m) ms"

definition run_select :: "DB \<Rightarrow> Query \<Rightarrow> Model list" where
  "run_select db q = order_rows (q_order q) (map aggregate (group_rows (q_group q) (selected db q)))"

text \<open>\<open>query.Find(&result)\<close> into a slice: all result rows, none is no error.\<close>

definition db_Find :: "DB \<Rightarrow> Query \<Rightarrow> Model list result \<times> DB" where
  "db_Find db q =
     (case select_error db q of
        Some err \<Rightarrow> Err err
      | None \<Rightarrow> Ok (run_select db q),
      db\<lparr>log := log db @ [Find q]\<rparr>)"

text \<open>
  \<open>query.Scan(&result)\<close> into a single struct, as gorm (jinzhu/gorm, the query callback)
  runs it: every row the store returns is scanned into the same destination, one after
  the other, so the last row is what stays; when the store returned no row the
  destination is untouched and the error is \<open>ErrRecordNotFound\<close>. The outcome is the
  destination and the \<open>Error\<close> of the handle (\<open>None\<close> is nil).
\<close>

definition db_Scan :: "DB \<Rightarrow> Query \<Rightarrow> Model \<Rightarrow> (Model \<times> error option) \<times> DB" where
  "db_Scan db q dest =
     (case select_error db q of
        Some err \<Rightarrow> (dest, Some err)
      | None \<Rightarrow>
          (let rows = run_select db q
           in (foldl (\<lambda>result m. m) dest rows,
               if length rows = 0 then Some ErrRecordNotFound else None)),
      db\<lparr>log := log db @ [Scan q]\<rparr>)"

subsection \<open>The query service\<close>

text \<open>
  What \<open>s *Service\<close> brings from outside this file: the column resolver
  \<open>s.params.SysSchema.GetTableColumnNames\<close> and the projection builder \<open>s.genSelectStmt\<close>
  (models.go), from the table's columns and the requested fields to the select list.
  Both are functions of their arguments here; how the resolver itself reaches the store
  is its own matter and is not written to the log of the handle.
\<close>

record Service =
  GetTableColumnNames :: "string \<Rightarrow> error + string list"
  genSelectStmt :: "string list \<Rightarrow> string list \<Rightarrow> error + string"



definition Where :: "Query \<Rightarrow> cond \<Rightarrow> Query" where
  "Where q c = q\<lparr>q_where := q_where q @ [c]\<rparr>"

text \<open>\<open>fmt.Sprintf("\\b%s\\.", regexp.QuoteMeta(schema))\<close>\<close>

definition schemaPattern :: "string \<Rightarrow> string" where
  "schemaPattern schema = [backslash, CHR ''b''] @ QuoteMeta schema @ [backslash, CHR ''.'']"

text \<open>The query \<open>queryStatements\<close> builds (lines 149-182).\<close>

definition statementsQuery ::
    "Unicode \<Rightarrow> string \<Rightarrow> int \<Rightarrow> int \<Rightarrow> string list \<Rightarrow> string list \<Rightarrow> string
       \<Rightarrow> Query" where
  "statementsQuery uc selectStmt beginTime endTime schemas stmtTypes text =
     (let query = \<lparr> q_select = selectStmt, q_table = statementsTable,
                     q_where = [SummaryWithin beginTime endTime],
                     q_group = [Schema_name, Digest],
                     q_order = Some Agg_sum_latency_DESC \<rparr>;
          query = (if length schemas > 0 then
                     (let regex = map schemaPattern schemas;
                          regexAll = strings_Join regex ''|''
                      in Where query (TableNamesRegexp regexAll))
                   else query);
          query = (if length stmtTypes > 0 then Where query (StmtTypeIn stmtTypes) else query);
          query = (if length text > 0 then
                     (let lowerText = strings_ToLower uc text;
                          arr = strings_Fields uc lowerText
                      in foldl (\<lambda>query v. Where query (TextRegexp v v v v v)) query arr)
                   else query)
      in query)"

text \<open>\<open>queryStatements\<close> (lines 132-186).\<close>

definition queryStatements ::
    "Service \<Rightarrow> Unicode \<Rightarrow> DB \<Rightarrow> int \<Rightarrow> int \<Rightarrow> string list \<Rightarrow> string list \<Rightarrow> string
       \<Rightarrow> string list \<Rightarrow> Model list result \<times> DB" where
  "queryStatements s uc db beginTime endTime schemas stmtTypes text reqFields =
     (case GetTableColumnNames s statementsTable of
        Inl err \<Rightarrow> (Err err, db)
      | Inr tableColumns \<Rightarrow>
          (case genSelectStmt s tableColumns reqFields of
             Inl err \<Rightarrow> (Err err, db)
           | Inr selectStmt \<Rightarrow>
               db_Find db
                 (statementsQuery uc selectStmt beginTime endTime schemas stmtTypes text)))"

text \<open>The eleven fields \<open>queryPlans\<close> asks for (lines 198-209).\<close>

definition planFields :: "string list" where
  "planFields = [''plan_digest'', ''schema_name'', ''digest_text'', ''digest'', ''sum_latency'',
                 ''max_latency'', ''min_latency'', ''avg_latency'', ''exec_count'', ''avg_mem'',
                 ''max_mem'']"

definition plansQuery :: "string \<Rightarrow> int \<Rightarrow> int \<Rightarrow> string \<Rightarrow> string \<Rightarrow> Query" where
  "plansQuery selectStmt beginTime endTime schemaName digestArg =
     \<lparr> q_select = selectStmt, q_table = statementsTable,
       q_where = [SummaryWithin beginTime endTime, SchemaNameEq schemaName, DigestEq digestArg],
       q_group = [Plan_digest],
       q_order = None \<rparr>"

text \<open>\<open>queryPlans\<close> (lines 188-224).\<close>

definition queryPlans ::
    "Service \<Rightarrow> DB \<Rightarrow> int \<Rightarrow> int \<Rightarrow> string \<Rightarrow> string \<Rightarrow> Model list result \<times> DB" where
  "queryPlans s db beginTime endTime schemaName digestArg =
     (case GetTableColumnNames s statementsTable of
        Inl err \<Rightarrow> (Err err, db)
      | Inr tableColumns \<Rightarrow>
          (case genSelectStmt s tableColumns planFields of
             Inl err \<Rightarrow> (Err err, db)
           | Inr selectStmt \<Rightarrow>
               db_Find db (plansQuery selectStmt beginTime endTime schemaName digestArg)))"

text \<open>The query \<open>queryPlanDetail\<close> builds (lines 242-250).\<close>

definition planDetailQuery ::
    "string \<Rightarrow> int \<Rightarrow> int \<Rightarrow> string \<Rightarrow> string \<Rightarrow> string list \<Rightarrow> Query" where
  "planDetailQuery selectStmt beginTime endTime schemaName digestArg plans =
     (let query = \<lparr> q_select = selectStmt, q_table = statementsTable,
                     q_where = [SummaryWithin beginTime endTime, SchemaNameEq schemaName,
                                DigestEq digestArg],
                     q_group = [],
                     q_order = None \<rparr>;
          query = (if length plans > 0 then Where query (PlanDigestIn plans) else query)
      in query)"

text \<open>
  \<open>queryPlanDetail\<close> (lines 226-253). It returns both named results, \<open>result\<close> and \<open>err\<close>.
  \<open>result Model\<close> starts as the zero value and is what \<open>Scan\<close> writes into; a bare \<open>return\<close>
  hands back the zero value with the error.
\<close>

definition queryPlanDetail ::
    "Service \<Rightarrow> DB \<Rightarrow> int \<Rightarrow> int \<Rightarrow> string \<Rightarrow> string \<Rightarrow> string list
       \<Rightarrow> (Model \<times> error option) \<times> DB" where
  "queryPlanDetail s db beginTime endTime schemaName digestArg plans =
     (case GetTableColumnNames s statementsTable of
        Inl err \<Rightarrow> ((zero_Model, Some err), db)
      | Inr tableColumns \<Rightarrow>
          (case genSelectStmt s tableColumns [''*''] of
             Inl err \<Rightarrow> ((zero_Model, Some err), db)
           | Inr selectStmt \<Rightarrow>
               db_Scan db (planDetailQuery selectStmt beginTime endTime schemaName digestArg plans)
                 zero_Model))"

subsection \<open>The writes of the configuration, and example stores\<close>

definition enableWrite :: "Config \<Rightarrow> stmt" where
  "enableWrite config = Exec (setGlobalSQL stmtEnableVar) (SQLBool (Enable config))"

definition refreshWrite :: "Config \<Rightarrow> stmt" where
  "refreshWrite config =
     Exec (setGlobalSQL stmtRefreshIntervalVar) (SQLInt (RefreshInterval config))"

definition historyWrite :: "Config \<Rightarrow> stmt" where
  "historyWrite config = Exec (setGlobalSQL stmtHistorySizeVar) (SQLInt (HistorySize config))"

text \<open>The store's answer to a write.\<close>

definition answer :: "DB \<Rightarrow> stmt \<Rightarrow> error option" where
  "answer db st = (case st of Exec sql v \<Rightarrow> exec_error db sql v | _ \<Rightarrow> None)"

definition example_config :: Config where
  "example_config = \<lparr> Enable = True, RefreshInterval = 1800, HistorySize = 24 \<rparr>"

text \<open>
  A store on which every statement succeeds and every global variable reads \<open>1\<close>; its
  \<open>REGEXP\<close> is the pattern search modelled above, its \<open>LOWER\<close> lowers the ASCII letters.
\<close>

definition healthy_db :: DB where
  "healthy_db = \<lparr> raw_pluck = (\<lambda>sql. Inr [''1'']), exec_error = (\<lambda>sql v. None),
                  select_error = (\<lambda>q. None), table_rows = [], REGEXP = regexp_like,
                  LOWER = map toLowerChar, log = [] \<rparr>"

text \<open>Stores that refuse one of the writes.\<close>

definition enable_write_fails_db :: DB where
  "enable_write_fails_db =
     healthy_db\<lparr>exec_error := (\<lambda>sql v. if sql = setGlobalSQL stmtEnableVar
                                        then Some (StoreError ''enable'') else None)\<rparr>"

definition refresh_write_fails_db :: DB where
  "refresh_write_fails_db =
     healthy_db\<lparr>exec_error := (\<lambda>sql v. if sql = setGlobalSQL stmtRefreshIntervalVar
                                        then Some (StoreError ''refresh'') else None)\<rparr>"

text \<open>
  A store where collection is on, the refresh interval is unset (reads as the empty
  string), the history size is 48, and any other variable yields no row.
\<close>

definition unset_db :: DB where
  "unset_db =
     healthy_db\<lparr>raw_pluck :=
       (\<lambda>sql. if sql = selectGlobalSQL stmtEnableVar then Inr [''1'']
              else if sql = selectGlobalSQL stmtRefreshIntervalVar then Inr [[]]
              else if sql = selectGlobalSQL stmtHistorySizeVar then Inr [''48'']
              else Inr [])\<rparr>"

subsection \<open>Notions used to state the properties of the queries\<close>

text \<open>The summary window of a row lies within \<open>[beginTime, endTime]\<close>, bounds included.\<close>

definition window_within :: "int \<Rightarrow> int \<Rightarrow> Row \<Rightarrow> bool" where
  "window_within beginTime endTime r =
     (summary_begin_time r \<ge> beginTime \<and> summary_end_time r \<le> endTime)"

text \<open>The statement fingerprint of a table row and of a result row: schema name and digest.\<close>

definition fingerprint :: "Row \<Rightarrow> string \<times> string" where
  "fingerprint r = (schema_name r, digest r)"

definition fingerprint_of :: "Model \<Rightarrow> string \<times> string" where
  "fingerprint_of m = (AggSchemaName m, AggDigest m)"

definition statement_key :: "Row \<Rightarrow> string list" where
  "statement_key r = group_key [Schema_name, Digest] r"

definition statement_groups :: "Row list \<Rightarrow> Model list" where
  "statement_groups rs = map aggregate (group_rows [Schema_name, Digest] rs)"

text \<open>
  The rows \<open>queryPlanDetail\<close> is to select: within the window, of the given schema and
  digest and, when \<open>plans\<close> is not empty, with a plan digest among \<open>plans\<close>.
\<close>

definition plan_detail_matches ::
    "int \<Rightarrow> int \<Rightarrow> string \<Rightarrow> string \<Rightarrow> string list \<Rightarrow> Row \<Rightarrow> bool" where
  "plan_detail_matches beginTime endTime schemaName digestArg plans r =
     (summary_begin_time r \<ge> beginTime \<and> summary_end_time r \<le> endTime
      \<and> schema_name r = schemaName \<and> digest r = digestArg
      \<and> (plans \<noteq> [] \<longrightarrow> plan_digest r \<in> set plans))"

text \<open>
  A search term matches a row: the pattern search finds it in one of the five lowered
  columns.
\<close>

definition term_matches ::
    "(string \<Rightarrow> string \<Rightarrow> bool) \<Rightarrow> (string \<Rightarrow> string) \<Rightarrow> string \<Rightarrow> Row \<Rightarrow> bool" where
  "term_matches rx lower v r =
     (rx v (lower (digest_text r))
      \<or> rx v (lower (digest r))
      \<or> rx v (lower (schema_name r))
      \<or> rx v (lower (table_names r))
      \<or> rx v (lower (plan r)))"

text \<open>
  The tokens of the pattern of one schema: a word boundary, the bytes of the schema name
  as literals, a literal dot. \<open>join_bar\<close> puts the alternation bar between alternatives.
\<close>

definition schemaBranch :: "string \<Rightarrow> token list" where
  "schemaBranch schema = TWordBoundary # map TLit schema @ [TLit (CHR ''.'')]"

fun join_bar :: "token list list \<Rightarrow> token list" where
  "join_bar [] = []"
| "join_bar [b] = b"
| "join_bar (b # b' # bs) = b @ TBar # join_bar (b' # bs)"

definition lastChar :: "string \<Rightarrow> char option" where
  "lastChar pre = (if pre = [] then None else Some (last pre))"

text \<open>
  A table-reference list refers to a schema: the schema name followed by a dot occurs in
  it, at a word boundary.
\<close>

definition references_schema :: "string \<Rightarrow> string \<Rightarrow> bool" where
  "references_schema schema subject =
     (\<exists>pre post. subject = pre @ schema @ ''.'' @ post
        \<and> isWordAt (lastChar pre) \<noteq> isWordAt (nextChar (schema @ ''.'')))"

text \<open>
  Two ASCII strings that differ at most in the case of their letters.
\<close>

definition case_pair :: "char \<Rightarrow> char \<Rightarrow> bool" where
  "case_pair c d = ((c, d) \<in> set (zip upper_chars lower_chars)
                    \<or> (d, c) \<in> set (zip upper_chars lower_chars))"

definition same_modulo_case :: "string \<Rightarrow> string \<Rightarrow> bool" where
  "same_modulo_case s t = list_all2 (\<lambda>c d. c = d \<or> case_pair c d) s t"

definition no_upper :: "string \<Rightarrow> bool" where
  "no_upper s = list_all (\<lambda>c. c \<notin> set upper_chars) s"

text \<open>Two rows whose five searchable columns differ at most in the case of letters.\<close>

definition same_text_columns :: "Row \<Rightarrow> Row \<Rightarrow> bool" where
  "same_text_columns r r' =
     (same_modulo_case (digest_text r) (digest_text r')
      \<and> same_modulo_case (digest r) (digest r')
      \<and> same_modulo_case (schema_name r) (schema_name r')
      \<and> same_modulo_case (table_names r) (table_names r')
      \<and> same_modulo_case (plan r) (plan r'))"

text \<open>
  What \<open>Scan\<close> into the zero value leaves for the rows the store returns: the zero value
  and \<open>ErrRecordNotFound\<close> for no row, the last row and no error otherwise.
\<close>

definition scanned :: "Model list \<Rightarrow> Model \<times> error option" where
  "scanned ms = (if ms = [] then (zero_Model, Some ErrRecordNotFound) else (last ms, None))"

text \<open>The result row of a table row on its own (no \<open>GROUP BY\<close>).\<close>

definition single :: "Row \<Rightarrow> Model" where
  "single r = aggregate [r]"

subsection \<open>Example rows and services\<close>

definition row_tpcc :: Row where
  "row_tpcc = \<lparr> summary_begin_time = 100, summary_end_time = 200, schema_name = ''tpcc'',
                digest = ''d1'', digest_text = ''SELECT * FROM orders WHERE id = ?'',
                table_names = ''tpcc.orders'', stmt_type = ''Select'',
                plan = ''TableReader'', plan_digest = ''p1'', sum_latency = 30 \<rparr>"

text \<open>The same statement in the same window, run with another plan.\<close>

definition row_tpcc_p2 :: Row where
  "row_tpcc_p2 = row_tpcc\<lparr>plan := ''IndexLookUp'', plan_digest := ''p2'', sum_latency := 50\<rparr>"

definition row_test :: Row where
  "row_test = \<lparr> summary_begin_time = 100, summary_end_time = 200, schema_name = ''test'',
                digest = ''d3'', digest_text = ''select count ( ? ) from t'',
                table_names = ''test.t'', stmt_type = ''Select'',
                plan = ''StreamAgg'', plan_digest = ''p3'', sum_latency = 70 \<rparr>"

definition row_tpccx :: Row where
  "row_tpccx = \<lparr> summary_begin_time = 100, summary_end_time = 200, schema_name = ''tpccx'',
                 digest = ''d2'', digest_text = ''SELECT * FROM orders WHERE id = ?'',
                 table_names = ''tpccx.orders'', stmt_type = ''Select'',
                 plan = ''TableReader'', plan_digest = ''p1'', sum_latency = 10 \<rparr>"

definition example_rows :: "Row list" where
  "example_rows = [row_tpcc, row_test, row_tpcc_p2]"

definition table_db :: "Row list \<Rightarrow> DB" where
  "table_db rs = healthy_db\<lparr>table_rows := rs\<rparr>"



text \<open>
  A stand-in for the rune paths of Go's string functions, for examples with ASCII text,
  which never take them.
\<close>

definition no_unicode :: Unicode where
  "no_unicode = \<lparr> Map_unicode_ToLower = (\<lambda>s. s), FieldsFunc_unicode_IsSpace = (\<lambda>s. [s]) \<rparr>"

text \<open>A service whose projection builder accepts every field list.\<close>

definition star_service :: Service where
  "star_service = \<lparr> GetTableColumnNames = (\<lambda>t. Inr planFields),
                     genSelectStmt = (\<lambda>cols req. Inr (strings_Join req '', '')) \<rparr>"

section \<open>Properties\<close>

subsection \<open>Auxiliary facts\<close>

lemma setGlobalSQL_distinct:
  "setGlobalSQL stmtEnableVar \<noteq> setGlobalSQL stmtRefreshIntervalVar"
  "setGlobalSQL stmtEnableVar \<noteq> setGlobalSQL stmtHistorySizeVar"
  "setGlobalSQL stmtRefreshIntervalVar \<noteq> setGlobalSQL stmtHistorySizeVar"
  by (simp_all add: setGlobalSQL_def stmtEnableVar_def stmtRefreshIntervalVar_def
      stmtHistorySizeVar_def)

lemma selectGlobalSQL_distinct:
  "selectGlobalSQL stmtEnableVar \<noteq> selectGlobalSQL stmtRefreshIntervalVar"
  "selectGlobalSQL stmtEnableVar \<noteq> selectGlobalSQL stmtHistorySizeVar"
  "selectGlobalSQL stmtRefreshIntervalVar \<noteq> selectGlobalSQL stmtHistorySizeVar"
  "selectGlobalSQL stmtHistorySizeVar \<noteq> selectGlobalSQL stmtRefreshIntervalVar"
  by (simp_all add: selectGlobalSQL_def stmtEnableVar_def stmtRefreshIntervalVar_def
      stmtHistorySizeVar_def)

lemma Atoi_examples:
  "Atoi ''1'' = Inr 1"
  "Atoi ''48'' = Inr 48"
  "Atoi ''-1'' = Inr (- 1)"
  "Atoi ''on'' = Inl (NumError ''on'')"
  "Atoi ''+5'' = Inr 5"
  "Atoi ''-'' = Inl (NumError ''-'')"
  "Atoi ''1 '' = Inl (NumError ''1 '')"
  "Atoi ''9223372036854775807'' = Inr 9223372036854775807"
  "Atoi ''9223372036854775808'' = Inl (NumError ''9223372036854775808'')"
  "Atoi ''-9223372036854775808'' = Inr (- 9223372036854775808)"
  by (simp_all add: Atoi_def Let_def isDigit_def digit_chars_def decimal_def digitVal_def)

lemma querySQLIntVariable_result:
  "fst (querySQLIntVariable db name) =
     (case raw_pluck db (selectGlobalSQL name) of
        Inl err \<Rightarrow> Err err
      | Inr values \<Rightarrow>
         (case values of
            [] \<Rightarrow> Panic
          | strVal # _ \<Rightarrow>
              if strVal = [] then Ok (- 1)
              else (case Atoi strVal of Inl err \<Rightarrow> Err err | Inr intVal \<Rightarrow> Ok intVal)))"
  by (simp add: querySQLIntVariable_def db_RawPluck_def Let_def split: sum.splits list.splits)

lemma querySQLIntVariable_db:
  "snd (querySQLIntVariable db name) = db\<lparr>log := log db @ [RawPluck (selectGlobalSQL name)]\<rparr>"
  by (simp add: querySQLIntVariable_def db_RawPluck_def Let_def split: sum.splits list.splits)

lemma querySQLIntVariable_log_irrelevant:
  "fst (querySQLIntVariable (db\<lparr>log := l\<rparr>) name) = fst (querySQLIntVariable db name)"
  by (simp add: querySQLIntVariable_result)

text \<open>
  What \<open>updateStmtConfig\<close> returns: the answer to the last write it issued.
\<close>

lemma updateStmtConfig_returns:
  "fst (updateStmtConfig db config) =
     (if Enable config then
        (if answer db (refreshWrite config) \<noteq> None then answer db (refreshWrite config)
         else answer db (historyWrite config))
      else answer db (enableWrite config))"
  by (simp add: updateStmtConfig_def db_Exec_def split_def Let_def enableWrite_def
      refreshWrite_def historyWrite_def answer_def)

lemma selected_iff:
  "selected db q =
     filter (\<lambda>r. \<forall>c \<in> set (q_where q). holds (REGEXP db) (LOWER db) r c) (table_rows db)"
  by (simp add: selected_def list_all_iff)

lemma foldl_Where:
  "foldl (\<lambda>query v. Where query (f v)) q vs = q\<lparr>q_where := q_where q @ map f vs\<rparr>"
  by (induction vs arbitrary: q) (simp_all add: Where_def)

lemma statementsQuery_where:
  "q_where (statementsQuery uc sel b e schemas stmtTypes text) =
     SummaryWithin b e
     # (if schemas = [] then []
        else [TableNamesRegexp (strings_Join (map schemaPattern schemas) ''|'')])
     @ (if stmtTypes = [] then [] else [StmtTypeIn stmtTypes])
     @ (if text = [] then []
        else map (\<lambda>v. TextRegexp v v v v v) (strings_Fields uc (strings_ToLower uc text)))"
  unfolding statementsQuery_def Let_def foldl_Where
  by (simp add: Where_def)

lemma statementsQuery_rest:
  "q_group (statementsQuery uc sel b e schemas stmtTypes text) = [Schema_name, Digest]"
  "q_order (statementsQuery uc sel b e schemas stmtTypes text) = Some Agg_sum_latency_DESC"
  "q_select (statementsQuery uc sel b e schemas stmtTypes text) = sel"
  "q_table (statementsQuery uc sel b e schemas stmtTypes text) = statementsTable"
  unfolding statementsQuery_def Let_def foldl_Where
  by (simp_all add: Where_def)

lemma planDetailQuery_where:
  "q_where (planDetailQuery sel b e sn dg plans) =
     [SummaryWithin b e, SchemaNameEq sn, DigestEq dg]
     @ (if plans = [] then [] else [PlanDigestIn plans])"
  by (simp add: planDetailQuery_def Let_def Where_def)

lemma planDetailQuery_rest:
  "q_group (planDetailQuery sel b e sn dg plans) = []"
  "q_order (planDetailQuery sel b e sn dg plans) = None"
  by (simp_all add: planDetailQuery_def Let_def Where_def)

lemma queryStatements_ok:
  assumes "GetTableColumnNames s statementsTable = Inr tableColumns"
    and "genSelectStmt s tableColumns reqFields = Inr selectStmt"
  shows "queryStatements s uc db b e schemas stmtTypes text reqFields
           = db_Find db (statementsQuery uc selectStmt b e schemas stmtTypes text)"
  using assms by (simp add: queryStatements_def)

lemma queryPlanDetail_ok:
  assumes "GetTableColumnNames s statementsTable = Inr tableColumns"
    and "genSelectStmt s tableColumns [''*''] = Inr selectStmt"
  shows "queryPlanDetail s db b e sn dg plans
           = db_Scan db (planDetailQuery selectStmt b e sn dg plans) zero_Model"
  using assms by (simp add: queryPlanDetail_def)

lemma queryPlans_ok:
  assumes "GetTableColumnNames s statementsTable = Inr tableColumns"
    and "genSelectStmt s tableColumns planFields = Inr selectStmt"
  shows "queryPlans s db b e sn dg = db_Find db (plansQuery selectStmt b e sn dg)"
  using assms by (simp add: queryPlans_def)




lemma foldl_keep_last:
  "foldl (\<lambda>result m. m) dest ms = (if ms = [] then dest else last ms)"
  by (induction ms arbitrary: dest) simp_all

lemma db_Scan_result:
  "select_error db q = None \<Longrightarrow> fst (db_Scan db q zero_Model) = scanned (run_select db q)"
  by (simp add: db_Scan_def scanned_def Let_def foldl_keep_last)


lemma db_Find_log: "snd (db_Find db q) = db\<lparr>log := log db @ [Find q]\<rparr>"
  by (simp add: db_Find_def)

lemma run_select_ungrouped:
  "q_group q = [] \<Longrightarrow> q_order q = None \<Longrightarrow> run_select db q = map single (selected db q)"
  by (simp add: run_select_def group_rows_def single_def [abs_def])

lemma db_Find_result:
  "select_error db q = None \<Longrightarrow> fst (db_Find db q) = Ok (run_select db q)"
  by (simp add: db_Find_def)

lemma statement_key_eq: "statement_key r = statement_key r' \<longleftrightarrow> fingerprint r = fingerprint r'"
  by (simp add: statement_key_def group_key_def fingerprint_def)

text \<open>The result row of the group of a row \<open>r0\<close>.\<close>

lemma aggregate_group:
  assumes "r0 \<in> set rs"
  shows "fingerprint_of (aggregate (filter (\<lambda>r. statement_key r = statement_key r0) rs))
           = fingerprint r0"
    and "AggSumLatency (aggregate (filter (\<lambda>r. statement_key r = statement_key r0) rs))
           = sum_list (map sum_latency (filter (\<lambda>r. fingerprint r = fingerprint r0) rs))"
proof -
  let ?g = "filter (\<lambda>r. statement_key r = statement_key r0) rs"
  have "r0 \<in> set ?g" using assms by simp
  then obtain x xs where g: "?g = x # xs" by (cases ?g) auto
  then have "x \<in> set ?g" by simp
  then have x: "fingerprint x = fingerprint r0" by (simp add: statement_key_eq)
  show "fingerprint_of (aggregate ?g) = fingerprint r0"
    using x by (simp add: g aggregate_def fingerprint_of_def fingerprint_def)
  have "AggSumLatency (aggregate ?g) = sum_list (map sum_latency ?g)"
    by (simp add: g aggregate_def)
  then show "AggSumLatency (aggregate ?g)
           = sum_list (map sum_latency (filter (\<lambda>r. fingerprint r = fingerprint r0) rs))"
    by (simp add: statement_key_eq)
qed

lemma statement_groups_eq:
  "statement_groups rs =
     map (\<lambda>k. aggregate (filter (\<lambda>r. statement_key r = k) rs)) (remdups (map statement_key rs))"
  by (simp add: statement_groups_def group_rows_def statement_key_def [abs_def] comp_def)

lemma statement_groups_member:
  "m \<in> set (statement_groups rs) \<longleftrightarrow>
     (\<exists>r0 \<in> set rs. m = aggregate (filter (\<lambda>r. statement_key r = statement_key r0) rs))"
  by (auto simp add: statement_groups_eq)

lemma statement_groups_fingerprints:
  "set (map fingerprint_of (statement_groups rs)) = set (map fingerprint rs)"
proof -
  have "fingerprint_of ` set (statement_groups rs) = fingerprint ` set rs"
  proof (intro set_eqI iffI)
    fix p assume "p \<in> fingerprint_of ` set (statement_groups rs)"
    then obtain r0 where "r0 \<in> set rs"
        "p = fingerprint_of (aggregate (filter (\<lambda>r. statement_key r = statement_key r0) rs))"
      by (auto simp add: statement_groups_member)
    then show "p \<in> fingerprint ` set rs"
      using aggregate_group(1) [of r0 rs] by auto
  next
    fix p assume "p \<in> fingerprint ` set rs"
    then obtain r0 where r0: "r0 \<in> set rs" "p = fingerprint r0" by auto
    then have "aggregate (filter (\<lambda>r. statement_key r = statement_key r0) rs)
                 \<in> set (statement_groups rs)"
      by (auto simp add: statement_groups_member)
    then show "p \<in> fingerprint_of ` set (statement_groups rs)"
      using aggregate_group(1) [OF r0(1)] r0(2) by (metis imageI)
  qed
  then show ?thesis by simp
qed

lemma statement_groups_distinct:
  "distinct (map fingerprint_of (statement_groups rs))"
proof -
  let ?F = "\<lambda>k. aggregate (filter (\<lambda>r. statement_key r = k) rs)"
  have "inj_on (fingerprint_of \<circ> ?F) (set (remdups (map statement_key rs)))"
  proof (rule inj_onI)
    fix k k'
    assume "k \<in> set (remdups (map statement_key rs))" "k' \<in> set (remdups (map statement_key rs))"
      and eq: "(fingerprint_of \<circ> ?F) k = (fingerprint_of \<circ> ?F) k'"
    then obtain r0 r1 where r: "r0 \<in> set rs" "k = statement_key r0" "r1 \<in> set rs"
        "k' = statement_key r1"
      by auto
    have "fingerprint r0 = fingerprint r1"
      using eq aggregate_group(1) [OF r(1)] aggregate_group(1) [OF r(3)] by (simp add: r)
    then show "k = k'" by (simp add: r statement_key_eq)
  qed
  then have "distinct (map (fingerprint_of \<circ> ?F) (remdups (map statement_key rs)))"
    by (simp add: distinct_map)
  then show ?thesis by (simp add: statement_groups_eq)
qed

lemma statement_groups_sum:
  assumes "m \<in> set (statement_groups rs)"
  shows "AggSumLatency m
           = sum_list (map sum_latency (filter (\<lambda>r. fingerprint r = fingerprint_of m) rs))"
proof -
  obtain r0 where r0: "r0 \<in> set rs"
      "m = aggregate (filter (\<lambda>r. statement_key r = statement_key r0) rs)"
    using assms by (auto simp add: statement_groups_member)
  show ?thesis
    using aggregate_group [OF r0(1)] by (simp add: r0(2))
qed

lemma order_desc:
  "sorted_wrt (\<lambda>m m'. AggSumLatency m \<ge> AggSumLatency m')
     (order_rows (Some Agg_sum_latency_DESC) ms)"
proof -
  have "sorted (map (\<lambda>m. - AggSumLatency m) (sort_key (\<lambda>m. - AggSumLatency m) ms))"
    by (rule sorted_sort_key)
  then show ?thesis by (simp add: sorted_wrt_map)
qed

lemma order_set: "set (order_rows (Some Agg_sum_latency_DESC) ms) = set ms"
  by simp

lemma order_distinct_map:
  "distinct (map f (order_rows (Some Agg_sum_latency_DESC) ms)) = distinct (map f ms)"
  by (simp add: distinct_map)

lemma queryStatements_example:
  "fst (queryStatements star_service no_unicode (table_db example_rows) 50 250 [] [] []
          [''digest''])
   = Ok [\<lparr> AggSchemaName = ''tpcc'', AggDigest = ''d1'', AggPlanDigest = ''p1'', AggSumLatency = 80 \<rparr>,
         \<lparr> AggSchemaName = ''test'', AggDigest = ''d3'', AggPlanDigest = ''p3'', AggSumLatency = 70 \<rparr>]"
  by (simp add: queryStatements_def star_service_def db_Find_def table_db_def healthy_db_def
      run_select_def statementsQuery_rest selected_iff statementsQuery_where group_rows_def
      group_key_def aggregate_def row_tpcc_def row_test_def row_tpcc_p2_def example_rows_def)

lemma fieldsFrom_terms:
  "\<forall>c \<in> set cur. \<not> isSpace c \<Longrightarrow> t \<in> set (fieldsFrom cur s) \<Longrightarrow>
     t \<noteq> [] \<and> (\<forall>c \<in> set t. \<not> isSpace c)"
proof (induction s arbitrary: cur)
  case Nil
  then show ?case by (auto split: if_splits)
next
  case (Cons a s)
  show ?case
  proof (cases "isSpace a")
    case True
    with Cons.prems have "t = cur \<and> cur \<noteq> [] \<or> t \<in> set (fieldsFrom [] s)"
      by (auto split: if_splits)
    then show ?thesis
      using Cons.IH [of "[]"] Cons.prems(1) by auto
  next
    case False
    with Cons.prems have "t \<in> set (fieldsFrom (cur @ [a]) s)" by simp
    then show ?thesis
      using Cons.IH [of "cur @ [a]"] Cons.prems(1) False by auto
  qed
qed

lemma fieldsFrom_concat:
  "concat (fieldsFrom cur s) = cur @ filter (\<lambda>c. \<not> isSpace c) s"
  by (induction s arbitrary: cur) auto

text \<open>A string with a byte of \<open>0x80\<close> or more goes the rune path.\<close>

lemma non_ascii_paths:
  "\<not> list_all isAscii s \<Longrightarrow> strings_ToLower uc s = Map_unicode_ToLower uc s"
  "\<not> list_all isAscii s \<Longrightarrow> strings_Fields uc s = FieldsFunc_unicode_IsSpace uc s"
  by (simp_all add: strings_ToLower_def strings_Fields_def)

lemma strings_Fields_terms:
  "list_all isAscii s \<Longrightarrow>
     \<forall>t \<in> set (strings_Fields uc s). t \<noteq> [] \<and> (\<forall>c \<in> set t. \<not> isSpace c)"
  using fieldsFrom_terms [of "[]" _ s] by (auto simp add: strings_Fields_def)

lemma strings_Fields_concat:
  "list_all isAscii s \<Longrightarrow> concat (strings_Fields uc s) = filter (\<lambda>c. \<not> isSpace c) s"
  by (simp add: strings_Fields_def fieldsFrom_concat)

lemma planDetail_selected:
  "selected db (planDetailQuery sel b e sn dg plans)
     = filter (plan_detail_matches b e sn dg plans) (table_rows db)"
  by (rule trans [OF selected_iff], rule filter_cong)
    (auto simp add: planDetailQuery_where plan_detail_matches_def)

lemma plans_selected:
  "selected db (plansQuery sel b e sn dg)
     = filter (\<lambda>r. window_within b e r \<and> schema_name r = sn \<and> digest r = dg) (table_rows db)"
  by (rule trans [OF selected_iff], rule filter_cong)
    (auto simp add: plansQuery_def window_within_def)

lemma statements_selected:
  "selected db (statementsQuery uc sel b e schemas stmtTypes text)
     = filter (\<lambda>r. window_within b e r
                  \<and> list_all (holds (REGEXP db) (LOWER db) r)
                      (tl (q_where (statementsQuery uc sel b e schemas stmtTypes text))))
         (table_rows db)"
  by (rule trans [OF selected_iff], rule filter_cong)
    (auto simp add: statementsQuery_where window_within_def list_all_iff)

subsection \<open>Letter case\<close>

lemma letters_facts:
  "distinct upper_chars"
  "length upper_chars = length lower_chars"
  "list_all (\<lambda>c. c \<notin> set upper_chars) lower_chars"
  "list_all isAscii upper_chars"
  "list_all isAscii lower_chars"
  "list_all (\<lambda>c. \<not> isSpace c) upper_chars"
  "list_all (\<lambda>c. \<not> isSpace c) lower_chars"
  by (simp_all add: upper_chars_def lower_chars_def isAscii_def isSpace_def)

lemma upper_keys: "fst ` set (zip upper_chars lower_chars) = set upper_chars"
proof -
  have "set (map fst (zip upper_chars lower_chars)) = set upper_chars"
    using letters_facts(2) by simp
  then show ?thesis by simp
qed

lemma letters_ascii:
  "c \<in> set upper_chars \<Longrightarrow> isAscii c"
  "c \<in> set lower_chars \<Longrightarrow> isAscii c"
  using letters_facts(4,5) by (simp_all add: list_all_iff)

lemma letters_no_space:
  "c \<in> set upper_chars \<Longrightarrow> \<not> isSpace c"
  "c \<in> set lower_chars \<Longrightarrow> \<not> isSpace c"
  using letters_facts(6,7) by (simp_all add: list_all_iff)

lemma lower_not_upper: "c \<in> set lower_chars \<Longrightarrow> c \<notin> set upper_chars"
  using letters_facts(3) by (simp add: list_all_iff)

lemma letter_pair:
  assumes "(c, d) \<in> set (zip upper_chars lower_chars)"
  shows "c \<in> set upper_chars" "d \<in> set lower_chars" "toLowerChar c = d" "toLowerChar d = d"
proof -
  show c: "c \<in> set upper_chars" using assms by (rule set_zip_leftD)
  show d: "d \<in> set lower_chars" using assms by (rule set_zip_rightD)
  have "distinct (map fst (zip upper_chars lower_chars))"
    using letters_facts(1,2) by simp
  then have "map_of (zip upper_chars lower_chars) c = Some d"
    using assms by (rule map_of_is_SomeI)
  then show "toLowerChar c = d" by (simp add: toLowerChar_def)
  have "d \<notin> set upper_chars" using d by (rule lower_not_upper)
  then have "map_of (zip upper_chars lower_chars) d = None"
    by (simp add: map_of_eq_None_iff upper_keys)
  then show "toLowerChar d = d" by (simp add: toLowerChar_def)
qed

lemma case_pair_cases:
  "case_pair c d \<Longrightarrow>
     (c \<in> set upper_chars \<and> d \<in> set lower_chars \<or> c \<in> set lower_chars \<and> d \<in> set upper_chars)
     \<and> toLowerChar c = toLowerChar d"
  unfolding case_pair_def using letter_pair [of c d] letter_pair [of d c] by auto

lemma toLowerChar_cases:
  "toLowerChar c = c \<and> c \<notin> set upper_chars
   \<or> c \<in> set upper_chars \<and> toLowerChar c \<in> set lower_chars \<and> case_pair (toLowerChar c) c"
proof (cases "map_of (zip upper_chars lower_chars) c")
  case None
  then have "c \<notin> set upper_chars"
    by (simp add: map_of_eq_None_iff upper_keys)
  with None show ?thesis by (simp add: toLowerChar_def)
next
  case (Some d)
  then have "(c, d) \<in> set (zip upper_chars lower_chars)" by (rule map_of_SomeD)
  then show ?thesis
    using letter_pair [of c d] by (simp add: case_pair_def)
qed

lemma toLowerChar_no_upper: "toLowerChar c \<notin> set upper_chars"
  using toLowerChar_cases [of c] lower_not_upper by auto

lemma toLowerChar_ascii: "isAscii c \<Longrightarrow> isAscii (toLowerChar c)"
  using toLowerChar_cases [of c] letters_ascii by auto

lemma toLowerChar_space: "isSpace (toLowerChar c) = isSpace c"
  using toLowerChar_cases [of c] letters_no_space by auto

lemma toLowerChar_same: "c = d \<or> case_pair c d \<Longrightarrow> toLowerChar c = toLowerChar d"
  using case_pair_cases by auto

lemma same_modulo_case_lower:
  "same_modulo_case s t \<Longrightarrow> map toLowerChar s = map toLowerChar t"
  unfolding same_modulo_case_def
  by (induction rule: list_all2_induct) (simp_all add: toLowerChar_same)

lemma same_modulo_case_ascii:
  "same_modulo_case s t \<Longrightarrow> list_all isAscii s \<Longrightarrow> list_all isAscii t"
  unfolding same_modulo_case_def
proof (induction rule: list_all2_induct)
  case Nil
  then show ?case by simp
next
  case (Cons c s d t)
  then show ?case
    using case_pair_cases [of c d] letters_ascii by auto
qed

lemma same_modulo_case_nonempty: "same_modulo_case s t \<Longrightarrow> s \<noteq> [] \<Longrightarrow> t \<noteq> []"
  by (auto simp add: same_modulo_case_def)

lemma lowered_same: "same_modulo_case (map toLowerChar s) s"
  unfolding same_modulo_case_def
  using toLowerChar_cases by (induction s) auto

lemma lowered_ascii: "list_all isAscii s \<Longrightarrow> list_all isAscii (map toLowerChar s)"
  by (induction s) (simp_all add: toLowerChar_ascii)

lemma lowered_filter:
  "filter (\<lambda>c. \<not> isSpace c) (map toLowerChar s) = map toLowerChar (filter (\<lambda>c. \<not> isSpace c) s)"
  by (induction s) (simp_all add: toLowerChar_space)

lemma ascii_terms:
  assumes "list_all isAscii text"
  shows "strings_Fields uc (strings_ToLower uc text) = fieldsFrom [] (map toLowerChar text)"
  using assms lowered_ascii [OF assms] by (simp add: strings_Fields_def strings_ToLower_def)

lemma ascii_terms_concat:
  assumes "list_all isAscii text"
  shows "concat (strings_Fields uc (strings_ToLower uc text))
           = map toLowerChar (filter (\<lambda>c. \<not> isSpace c) text)"
  by (simp add: ascii_terms [OF assms] fieldsFrom_concat lowered_filter)

lemma text_case_irrelevant:
  assumes "list_all isAscii text" and "same_modulo_case text text'"
  shows "strings_ToLower uc text' = strings_ToLower uc text"
  using assms same_modulo_case_ascii [OF assms(2,1)] same_modulo_case_lower [OF assms(2)]
  by (simp add: strings_ToLower_def)

lemma example_terms:
  "strings_Fields no_unicode (strings_ToLower no_unicode ''SELECT  Tpcc'') = [''select'', ''tpcc'']"
  "strings_Fields no_unicode (strings_ToLower no_unicode ''sElEcT'') = [''select'']"
  by (simp_all add: strings_Fields_def strings_ToLower_def toLowerChar_def upper_chars_def
      lower_chars_def isSpace_def isAscii_def)

lemma example_text_search:
  "selected (table_db example_rows)
     (statementsQuery no_unicode ''digest'' 50 250 [] [] ''SELECT  Tpcc'')
     = [row_tpcc, row_tpcc_p2]"
  "selected (table_db example_rows) (statementsQuery no_unicode ''digest'' 50 250 [] [] ''sElEcT'')
     = [row_tpcc, row_test, row_tpcc_p2]"
  by (simp_all add: selected_iff statementsQuery_where example_terms table_db_def healthy_db_def
      example_rows_def row_tpcc_def row_test_def row_tpcc_p2_def toLowerChar_def upper_chars_def
      lower_chars_def regexp_like_def backslash_def bar_def special_def isWordAt_def nextChar_def)

subsection \<open>Schema patterns\<close>

lemma special_escapable:
  "special c \<Longrightarrow> c \<noteq> CHR ''b'' \<and> isAscii c \<and> \<not> isAlnum c"
  by (auto simp add: special_def backslash_def isAscii_def isAlnum_def isWordChar_def)

lemma special_bar: "special bar" "special backslash" "bar \<noteq> backslash"
  by (simp_all add: special_def bar_def backslash_def)

lemma tokens_plain:
  "\<not> special c \<Longrightarrow> tokens (c # cs) = map_option ((#) (TLit c)) (tokens cs)"
  using special_bar by (cases cs) auto

lemma tokens_escaped:
  "special c \<Longrightarrow> tokens (backslash # c # cs) = map_option ((#) (TLit c)) (tokens cs)"
  using special_escapable [of c] by simp

lemma tokens_boundary:
  "tokens (backslash # CHR ''b'' # cs) = map_option ((#) TWordBoundary) (tokens cs)"
  by simp

lemma tokens_bar:
  "tokens (bar # cs) = map_option ((#) TBar) (tokens cs)"
  using special_bar by (cases cs) auto

lemma tokens_QuoteMeta:
  "tokens (QuoteMeta s @ rest) = map_option ((@) (map TLit s)) (tokens rest)"
proof (induction s)
  case Nil
  show ?case by (simp add: option.map_ident)
next
  case (Cons c s)
  show ?case
  proof (cases "special c")
    case True
    then show ?thesis
      by (simp add: tokens_escaped Cons.IH option.map_comp comp_def del: tokens.simps)
  next
    case False
    then show ?thesis
      by (simp add: tokens_plain Cons.IH option.map_comp comp_def del: tokens.simps)
  qed
qed

lemma tokens_dot:
  "tokens (backslash # CHR ''.'' # cs) = map_option ((#) (TLit (CHR ''.''))) (tokens cs)"
  by (rule tokens_escaped) (simp add: special_def)

lemma tokens_schemaPattern:
  "tokens (schemaPattern schema @ rest) = map_option ((@) (schemaBranch schema)) (tokens rest)"
  by (cases "tokens rest")
    (simp_all add: schemaPattern_def schemaBranch_def tokens_boundary tokens_QuoteMeta tokens_dot
      del: tokens.simps)

lemma tokens_regexAll:
  "tokens (strings_Join (map schemaPattern schemas) ''|'')
     = Some (join_bar (map schemaBranch schemas))"
proof (induction schemas rule: induct_list012)
  case 1
  show ?case by simp
next
  case (2 b)
  show ?case using tokens_schemaPattern [of b "[]"] by simp
next
  case (3 b b' bs)
  have "tokens (schemaPattern b @ bar # strings_Join (map schemaPattern (b' # bs)) ''|'')
          = Some (schemaBranch b @ TBar # join_bar (map schemaBranch (b' # bs)))"
    using 3 by (simp only: tokens_schemaPattern tokens_bar option.map)
  then show ?case by (simp add: bar_def)
qed

lemma branches_no_bar:
  "TBar \<notin> set b \<Longrightarrow> branches b = [b]"
  by (induction b) auto

lemma branches_cut:
  "TBar \<notin> set b \<Longrightarrow> branches (b @ TBar # ts) = b # branches ts"
  by (induction b) auto

lemma branches_join_bar:
  "bs \<noteq> [] \<Longrightarrow> \<forall>b \<in> set bs. TBar \<notin> set b \<Longrightarrow> branches (join_bar bs) = bs"
proof (induction bs rule: induct_list012)
  case 1
  then show ?case by simp
next
  case (2 b)
  then show ?case by (simp add: branches_no_bar)
next
  case (3 b b' bs)
  then show ?case by (simp add: branches_cut)
qed

lemma schemaBranch_no_bar: "TBar \<notin> set (schemaBranch schema)"
  by (auto simp add: schemaBranch_def)

lemma regexAll_branches:
  assumes "schemas \<noteq> []"
  shows "regexp_like (strings_Join (map schemaPattern schemas) ''|'') subject
           \<longleftrightarrow> (\<exists>schema \<in> set schemas. search (schemaBranch schema) None subject)"
proof -
  have "branches (join_bar (map schemaBranch schemas)) = map schemaBranch schemas"
    using assms by (intro branches_join_bar) (auto simp add: schemaBranch_no_bar)
  then show ?thesis
    by (simp add: regexp_like_def tokens_regexAll list_ex_iff)
qed

lemma match_here_literal:
  "match_here (map TLit s @ ts) prev rest
     \<longleftrightarrow> (\<exists>rest'. rest = s @ rest' \<and> match_here ts (if s = [] then prev else Some (last s)) rest')"
proof (induction s arbitrary: prev rest)
  case Nil
  show ?case by simp
next
  case (Cons c s)
  show ?case
  proof (cases rest)
    case Nil
    then show ?thesis by simp
  next
    case (Cons d ds)
    then show ?thesis
      using Cons.IH [of "Some d" ds] by auto
  qed
qed

lemma match_here_dot:
  "match_here [TLit (CHR ''.'')] prev rest \<longleftrightarrow> (\<exists>post. rest = ''.'' @ post)"
  by (cases rest) auto

lemma match_here_schemaBranch:
  "match_here (schemaBranch schema) prev rest
     \<longleftrightarrow> isWordAt prev \<noteq> isWordAt (nextChar rest) \<and> (\<exists>post. rest = schema @ ''.'' @ post)"
  unfolding schemaBranch_def match_here.simps match_here_literal match_here_dot
  by auto

lemma search_positions:
  "search ts prev subject
     \<longleftrightarrow> (\<exists>pre rest. subject = pre @ rest
            \<and> match_here ts (if pre = [] then prev else Some (last pre)) rest)"
proof (induction subject arbitrary: prev)
  case Nil
  show ?case by simp
next
  case (Cons d ds)
  have "(\<exists>pre rest. d # ds = pre @ rest
            \<and> match_here ts (if pre = [] then prev else Some (last pre)) rest)
        \<longleftrightarrow> match_here ts prev (d # ds)
            \<or> (\<exists>pre' rest. ds = pre' @ rest
                 \<and> match_here ts (if pre' = [] then Some d else Some (last pre')) rest)"
    (is "?L \<longleftrightarrow> ?A \<or> ?B")
  proof
    assume ?L
    then obtain pre rest where p: "d # ds = pre @ rest"
        "match_here ts (if pre = [] then prev else Some (last pre)) rest"
      by blast
    show "?A \<or> ?B"
    proof (cases pre)
      case Nil
      with p show ?thesis by simp
    next
      case (Cons x pre')
      with p have "ds = pre' @ rest" "x = d" by simp_all
      moreover have "match_here ts (if pre' = [] then Some d else Some (last pre')) rest"
        using p(2) Cons \<open>x = d\<close> by (simp split: if_splits)
      ultimately show ?thesis by blast
    qed
  next
    assume "?A \<or> ?B"
    then show ?L
    proof
      assume ?A
      then have "d # ds = [] @ (d # ds)
          \<and> match_here ts (if ([]::string) = [] then prev else Some (last [])) (d # ds)"
        by simp
      then show ?L by blast
    next
      assume ?B
      then obtain pre' rest where p: "ds = pre' @ rest"
          "match_here ts (if pre' = [] then Some d else Some (last pre')) rest"
        by blast
      then have "d # ds = (d # pre') @ rest
          \<and> match_here ts (if d # pre' = [] then prev else Some (last (d # pre'))) rest"
        by (auto split: if_splits)
      then show ?L by blast
    qed
  qed
  then show ?case
    using Cons.IH [of "Some d"] by simp
qed

lemma search_schemaBranch:
  "search (schemaBranch schema) None subject \<longleftrightarrow> references_schema schema subject"
proof -
  have n: "nextChar (schema @ ''.'' @ post) = nextChar (schema @ ''.'')" for post
    by (cases schema) (simp_all add: nextChar_def)
  have "search (schemaBranch schema) None subject
          \<longleftrightarrow> (\<exists>pre rest. subject = pre @ rest
                 \<and> isWordAt (lastChar pre) \<noteq> isWordAt (nextChar rest)
                 \<and> (\<exists>post. rest = schema @ ''.'' @ post))"
    by (simp add: search_positions match_here_schemaBranch lastChar_def)
  also have "\<dots> \<longleftrightarrow> (\<exists>pre post. subject = pre @ schema @ ''.'' @ post
                 \<and> isWordAt (lastChar pre) \<noteq> isWordAt (nextChar (schema @ ''.'' @ post)))"
    by blast
  also have "\<dots> \<longleftrightarrow> references_schema schema subject"
    by (simp only: n references_schema_def)
  finally show ?thesis .
qed

lemma schema_pattern_examples:
  "strings_Join (map schemaPattern [''tpcc'']) ''|'' = [backslash] @ ''btpcc'' @ [backslash] @ ''.''"
  "strings_Join (map schemaPattern [''a.b'', ''tpcc'']) ''|''
     = [backslash] @ ''ba'' @ [backslash] @ ''.b'' @ [backslash] @ ''.|'' @ [backslash] @ ''btpcc''
       @  [backslash] @ ''.''"
  by (simp_all add: schemaPattern_def special_def backslash_def)

lemma regexp_like_examples:
  "regexp_like (strings_Join (map schemaPattern [''tpcc'']) ''|'') ''tpcc.orders''"
  "\<not> regexp_like (strings_Join (map schemaPattern [''tpcc'']) ''|'') ''tpccx.orders''"
  "regexp_like (strings_Join (map schemaPattern [''tpcc'']) ''|'') ''test.t, tpcc.orders''"
  "\<not> regexp_like (strings_Join (map schemaPattern [''a.b'', ''tpcc'']) ''|'') ''axb.t''"
  "regexp_like (strings_Join (map schemaPattern [''a.b'', ''tpcc'']) ''|'') ''a.b.t''"
  by (simp_all add: regexp_like_def schemaPattern_def backslash_def bar_def special_def
      isWordAt_def nextChar_def isAscii_def isAlnum_def isWordChar_def)

subsection \<open>Configuration accessor\<close>

text \<open>
  C1. The claim: whenever a write issued by \<open>updateStmtConfig\<close> fails, the error comes back
  to the caller, also when \<open>config.Enable\<close> is true and it is the write of the enabled flag
  that fails. The code does not do that: on a store that refuses only the write of the
  enabled flag, with \<open>Enable = True\<close>, the store reports an error for that write and
  \<open>updateStmtConfig\<close> returns nil.
\<close>

theorem updateStmtConfig_enable_error_lost:
  "answer enable_write_fails_db (enableWrite example_config) = Some (StoreError ''enable'')
   \<and> Enable example_config
   \<and> fst (updateStmtConfig enable_write_fails_db example_config) = None"
  using setGlobalSQL_distinct
  by (simp add: updateStmtConfig_def db_Exec_def enable_write_fails_db_def healthy_db_def
      example_config_def split_def Let_def answer_def enableWrite_def)

text \<open>
  C4. \<open>queryStmtConfig\<close>: when the three variables read as the integers \<open>enable\<close>,
  \<open>refreshInterval\<close> and \<open>historySize\<close>, the configuration returned has \<open>Enable\<close> true exactly
  when \<open>enable\<close> is not zero (no default), the refresh interval 1800 exactly when \<open>-1\<close> was
  read and the value read otherwise, the history size 24 exactly when \<open>-1\<close> was read and the
  value read otherwise.
\<close>

theorem queryStmtConfig_defaults:
  assumes "fst (querySQLIntVariable db stmtEnableVar) = Ok enable"
    and "fst (querySQLIntVariable db stmtRefreshIntervalVar) = Ok refreshInterval"
    and "fst (querySQLIntVariable db stmtHistorySizeVar) = Ok historySize"
  shows "fst (queryStmtConfig db) =
           Ok \<lparr> Enable = (enable \<noteq> 0),
                RefreshInterval = (if refreshInterval = - 1 then 1800 else refreshInterval),
                HistorySize = (if historySize = - 1 then 24 else historySize) \<rparr>"
proof -
  obtain db1 where 1: "querySQLIntVariable db stmtEnableVar = (Ok enable, db1)"
      and d1: "db1 = db\<lparr>log := log db @ [RawPluck (selectGlobalSQL stmtEnableVar)]\<rparr>"
    using assms(1) querySQLIntVariable_db [of db stmtEnableVar]
    by (cases "querySQLIntVariable db stmtEnableVar") simp
  have "fst (querySQLIntVariable db1 stmtRefreshIntervalVar) = Ok refreshInterval"
    using assms(2) by (simp add: d1 querySQLIntVariable_log_irrelevant)
  then obtain db2
    where 2: "querySQLIntVariable db1 stmtRefreshIntervalVar = (Ok refreshInterval, db2)"
      and d2: "db2 = db1\<lparr>log := log db1 @ [RawPluck (selectGlobalSQL stmtRefreshIntervalVar)]\<rparr>"
    using querySQLIntVariable_db [of db1 stmtRefreshIntervalVar]
    by (cases "querySQLIntVariable db1 stmtRefreshIntervalVar") simp
  have "fst (querySQLIntVariable db2 stmtHistorySizeVar) = Ok historySize"
    using assms(3) by (simp add: d1 d2 querySQLIntVariable_log_irrelevant)
  then obtain db3 where 3: "querySQLIntVariable db2 stmtHistorySizeVar = (Ok historySize, db3)"
    by (cases "querySQLIntVariable db2 stmtHistorySizeVar") simp
  show ?thesis
    by (simp add: queryStmtConfig_def 1 2 3)
qed

theorem queryStmtConfig_defaults_witness:
  "fst (queryStmtConfig unset_db)
     = Ok \<lparr> Enable = True, RefreshInterval = 1800, HistorySize = 48 \<rparr>"
proof -
  have a: "fst (querySQLIntVariable unset_db stmtEnableVar) = Ok 1"
    using selectGlobalSQL_distinct Atoi_examples
    by (simp add: querySQLIntVariable_result unset_db_def healthy_db_def)
  have b: "fst (querySQLIntVariable unset_db stmtRefreshIntervalVar) = Ok (- 1)"
    using selectGlobalSQL_distinct
    by (simp add: querySQLIntVariable_result unset_db_def healthy_db_def)
  have c: "fst (querySQLIntVariable unset_db stmtHistorySizeVar) = Ok 48"
    using selectGlobalSQL_distinct Atoi_examples
    by (simp add: querySQLIntVariable_result unset_db_def healthy_db_def)
  show ?thesis
    using queryStmtConfig_defaults [OF a b c] by simp
qed

text \<open>
  C5, as the code has it. \<open>updateStmtConfig\<close> always issues the write of the enabled flag
  first. When \<open>Enable\<close> is false that is its only write. When \<open>Enable\<close> is true and the write
  of the enabled flag succeeded, it goes on with the write of the refresh interval and,
  only if that one succeeded, the write of the history size: three writes in this order
  when the refresh interval was written, two when that write failed.
\<close>

theorem updateStmtConfig_writes:
  "(\<exists>more. log (snd (updateStmtConfig db config)) = log db @ enableWrite config # more)
   \<and> (\<not> Enable config \<longrightarrow>
        log (snd (updateStmtConfig db config)) = log db @ [enableWrite config])
   \<and> (Enable config \<and> answer db (enableWrite config) = None
        \<and> answer db (refreshWrite config) = None \<longrightarrow>
        log (snd (updateStmtConfig db config))
          = log db @ [enableWrite config, refreshWrite config, historyWrite config])
   \<and> (Enable config \<and> answer db (enableWrite config) = None
        \<and> answer db (refreshWrite config) \<noteq> None \<longrightarrow>
        log (snd (updateStmtConfig db config))
          = log db @ [enableWrite config, refreshWrite config])"
  by (auto simp add: updateStmtConfig_def db_Exec_def split_def Let_def enableWrite_def
      refreshWrite_def historyWrite_def answer_def)

theorem updateStmtConfig_writes_witness:
  "log (snd (updateStmtConfig healthy_db example_config))
     = [enableWrite example_config, refreshWrite example_config, historyWrite example_config]
   \<and> log (snd (updateStmtConfig refresh_write_fails_db example_config))
     = [enableWrite example_config, refreshWrite example_config]
   \<and> log (snd (updateStmtConfig healthy_db (example_config\<lparr>Enable := False\<rparr>)))
     = [enableWrite (example_config\<lparr>Enable := False\<rparr>)]"
proof -
  have e: "Enable example_config"
    by (simp add: example_config_def)
  have h: "answer healthy_db (enableWrite example_config) = None"
      "answer healthy_db (refreshWrite example_config) = None"
    by (simp_all add: answer_def enableWrite_def refreshWrite_def healthy_db_def)
  have r: "answer refresh_write_fails_db (enableWrite example_config) = None"
      "answer refresh_write_fails_db (refreshWrite example_config) \<noteq> None"
    using setGlobalSQL_distinct
    by (simp_all add: answer_def enableWrite_def refreshWrite_def refresh_write_fails_db_def
        healthy_db_def)
  have l: "log healthy_db = []" "log refresh_write_fails_db = []"
    by (simp_all add: refresh_write_fails_db_def healthy_db_def)
  show ?thesis
    using updateStmtConfig_writes [of healthy_db example_config]
      updateStmtConfig_writes [of refresh_write_fails_db example_config]
      updateStmtConfig_writes [of healthy_db "example_config\<lparr>Enable := False\<rparr>"]
      e h r l
    by simp
qed

text \<open>
  The claim as the specification words it ("exactly three writes" whenever \<open>Enable\<close> is
  true) fails on a store that refuses the write of the refresh interval: the function
  returns after that write, and the history size is never written.
\<close>

theorem updateStmtConfig_three_writes_counterexample:
  "Enable example_config
   \<and> log (snd (updateStmtConfig refresh_write_fails_db example_config))
       = [Exec (setGlobalSQL stmtEnableVar) (SQLBool True),
          Exec (setGlobalSQL stmtRefreshIntervalVar) (SQLInt 1800)]
   \<and> length (log (snd (updateStmtConfig refresh_write_fails_db example_config))) \<noteq> 3"
  using setGlobalSQL_distinct
  by (simp add: updateStmtConfig_def db_Exec_def refresh_write_fails_db_def healthy_db_def
      example_config_def split_def Let_def)

text \<open>
  C10. \<open>querySQLIntVariable\<close> reads \<open>values[0]\<close> unguarded: it panics exactly when the read
  succeeds with no row. With at least one row the result is defined by the first one: \<open>-1\<close>
  for the empty string, otherwise the integer \<open>Atoi\<close> parses or its error. A failed read
  returns the store's error.
\<close>

theorem querySQLIntVariable_first_element:
  "(fst (querySQLIntVariable db name) = Panic
      \<longleftrightarrow> raw_pluck db (selectGlobalSQL name) = Inr [])
   \<and> (\<forall>strVal more. raw_pluck db (selectGlobalSQL name) = Inr (strVal # more) \<longrightarrow>
        fst (querySQLIntVariable db name) =
          (if strVal = [] then Ok (- 1)
           else case Atoi strVal of Inl err \<Rightarrow> Err err | Inr intVal \<Rightarrow> Ok intVal))
   \<and> (\<forall>err. raw_pluck db (selectGlobalSQL name) = Inl err \<longrightarrow>
        fst (querySQLIntVariable db name) = Err err)"
  by (auto simp add: querySQLIntVariable_result split: sum.splits list.splits)

theorem querySQLIntVariable_first_element_witness:
  "fst (querySQLIntVariable unset_db ''no_such_variable'') = Panic
   \<and> fst (querySQLIntVariable unset_db stmtRefreshIntervalVar) = Ok (- 1)
   \<and> fst (querySQLIntVariable unset_db stmtHistorySizeVar) = Ok 48"
proof -
  have a: "raw_pluck unset_db (selectGlobalSQL ''no_such_variable'') = Inr []"
    by (simp add: unset_db_def healthy_db_def selectGlobalSQL_def stmtEnableVar_def
        stmtRefreshIntervalVar_def stmtHistorySizeVar_def)
  have b: "raw_pluck unset_db (selectGlobalSQL stmtRefreshIntervalVar) = Inr ([] # [])"
    using selectGlobalSQL_distinct by (simp add: unset_db_def healthy_db_def)
  have c: "raw_pluck unset_db (selectGlobalSQL stmtHistorySizeVar) = Inr (''48'' # [])"
    using selectGlobalSQL_distinct by (simp add: unset_db_def healthy_db_def)
  show ?thesis
    using querySQLIntVariable_first_element [of unset_db "''no_such_variable''"]
      querySQLIntVariable_first_element [of unset_db stmtRefreshIntervalVar]
      querySQLIntVariable_first_element [of unset_db stmtHistorySizeVar]
      a b c Atoi_examples
    by simp
qed

subsection \<open>Statement queries\<close>



text \<open>
  C3. For a non-empty search text, the conditions of the query are those of the query
  without text followed by one condition for each term: the terms are the fields of the
  lowered text, and a term is the bound value of each of the five placeholders of the
  fixed condition text. A row is selected exactly when it is selected without the text and
  every term matches, by the store's pattern search, one of the five columns lowered by
  the store. For ASCII text the terms are not empty and hold no white space, and put
  together they are the text without its white space, spelled the same up to the case of
  letters and with no upper-case letter left; texts that differ only in the case of
  letters give the same conditions. On a store whose \<open>LOWER\<close> lowers the ASCII letters,
  rows whose five columns differ only in the case of letters match the same terms.
\<close>

theorem text_search_terms:
  assumes "text \<noteq> []"
  shows "q_where (statementsQuery uc sel beginTime endTime schemas stmtTypes text)
           = q_where (statementsQuery uc sel beginTime endTime schemas stmtTypes [])
             @ map (\<lambda>v. TextRegexp v v v v v) (strings_Fields uc (strings_ToLower uc text))
         \<and> (r \<in> set (selected db (statementsQuery uc sel beginTime endTime schemas stmtTypes text))
              \<longleftrightarrow> r \<in> set (selected db (statementsQuery uc sel beginTime endTime schemas stmtTypes []))
                   \<and> (\<forall>v \<in> set (strings_Fields uc (strings_ToLower uc text)).
                         term_matches (REGEXP db) (LOWER db) v r))
         \<and> (list_all isAscii text \<longrightarrow>
              (\<forall>v \<in> set (strings_Fields uc (strings_ToLower uc text)).
                 v \<noteq> [] \<and> (\<forall>c \<in> set v. \<not> isSpace c))
              \<and> no_upper (concat (strings_Fields uc (strings_ToLower uc text)))
              \<and> same_modulo_case (concat (strings_Fields uc (strings_ToLower uc text)))
                   (filter (\<lambda>c. \<not> isSpace c) text))
         \<and> (list_all isAscii text \<and> same_modulo_case text text' \<longrightarrow>
              q_where (statementsQuery uc sel beginTime endTime schemas stmtTypes text')
                = q_where (statementsQuery uc sel beginTime endTime schemas stmtTypes text))
         \<and> (LOWER db = map toLowerChar \<and> same_text_columns r r' \<longrightarrow>
              term_matches (REGEXP db) (LOWER db) v r = term_matches (REGEXP db) (LOWER db) v r')"
proof -
  have 1: "q_where (statementsQuery uc sel beginTime endTime schemas stmtTypes text)
           = q_where (statementsQuery uc sel beginTime endTime schemas stmtTypes [])
             @ map (\<lambda>v. TextRegexp v v v v v) (strings_Fields uc (strings_ToLower uc text))"
    using assms by (simp add: statementsQuery_where)
  have 2: "r \<in> set (selected db (statementsQuery uc sel beginTime endTime schemas stmtTypes text))
              \<longleftrightarrow> r \<in> set (selected db (statementsQuery uc sel beginTime endTime schemas stmtTypes []))
                   \<and> (\<forall>v \<in> set (strings_Fields uc (strings_ToLower uc text)).
                         term_matches (REGEXP db) (LOWER db) v r)"
    using assms by (auto simp add: statementsQuery_where selected_iff term_matches_def)
  have 3: "(\<forall>v \<in> set (strings_Fields uc (strings_ToLower uc text)).
                 v \<noteq> [] \<and> (\<forall>c \<in> set v. \<not> isSpace c))
              \<and> no_upper (concat (strings_Fields uc (strings_ToLower uc text)))
              \<and> same_modulo_case (concat (strings_Fields uc (strings_ToLower uc text)))
                   (filter (\<lambda>c. \<not> isSpace c) text)"
    if a: "list_all isAscii text"
  proof -
    have "\<forall>v \<in> set (fieldsFrom [] (map toLowerChar text)). v \<noteq> [] \<and> (\<forall>c \<in> set v. \<not> isSpace c)"
      using fieldsFrom_terms [of "[]" _ "map toLowerChar text"] by auto
    moreover have "no_upper (map toLowerChar (filter (\<lambda>c. \<not> isSpace c) text))"
      by (simp add: no_upper_def list_all_iff toLowerChar_no_upper)
    ultimately show ?thesis
      by (simp add: ascii_terms [OF a] ascii_terms_concat [OF a, unfolded ascii_terms [OF a]]
          lowered_same)
  qed
  have 4: "q_where (statementsQuery uc sel beginTime endTime schemas stmtTypes text')
                = q_where (statementsQuery uc sel beginTime endTime schemas stmtTypes text)"
    if "list_all isAscii text \<and> same_modulo_case text text'"
    using that assms same_modulo_case_nonempty [of "text" text'] text_case_irrelevant [of "text" text' uc]
    by (simp add: statementsQuery_where)
  have 5: "term_matches (REGEXP db) (LOWER db) v r = term_matches (REGEXP db) (LOWER db) v r'"
    if "LOWER db = map toLowerChar \<and> same_text_columns r r'"
  proof -
    have "map toLowerChar (digest_text r) = map toLowerChar (digest_text r')"
        "map toLowerChar (digest r) = map toLowerChar (digest r')"
        "map toLowerChar (schema_name r) = map toLowerChar (schema_name r')"
        "map toLowerChar (table_names r) = map toLowerChar (table_names r')"
        "map toLowerChar (plan r) = map toLowerChar (plan r')"
      using that by (simp_all add: same_text_columns_def same_modulo_case_lower)
    then show ?thesis
      using that by (simp add: term_matches_def)
  qed
  show ?thesis
    using 1 2 3 4 5 by blast
qed

theorem text_search_terms_witness:
  "selected (table_db example_rows)
     (statementsQuery no_unicode ''digest'' 50 250 [] [] ''SELECT  Tpcc'')
     = [row_tpcc, row_tpcc_p2]
   \<and> (row_test \<in> set (selected (table_db example_rows)
                        (statementsQuery no_unicode ''digest'' 50 250 [] [] ''SELECT  Tpcc''))
        \<longleftrightarrow> row_test \<in> set (selected (table_db example_rows)
                              (statementsQuery no_unicode ''digest'' 50 250 [] [] []))
             \<and> (\<forall>v \<in> set [''select'', ''tpcc''].
                   term_matches regexp_like (map toLowerChar) v row_test))
   \<and> no_upper (concat [''select'', ''tpcc''])
   \<and> same_modulo_case (concat [''select'', ''tpcc'']) ''SELECTTpcc''
   \<and> q_where (statementsQuery no_unicode ''digest'' 50 250 [] [] ''select  tpcc'')
       = q_where (statementsQuery no_unicode ''digest'' 50 250 [] [] ''SELECT  Tpcc'')
   \<and> term_matches regexp_like (map toLowerChar) ''agg'' row_test
       = term_matches regexp_like (map toLowerChar) ''agg'' (row_test\<lparr>plan := ''STREAMAGG''\<rparr>)"
proof -
  have a: "''SELECT  Tpcc'' \<noteq> []" by simp
  have b: "list_all isAscii ''SELECT  Tpcc''"
    by (simp add: isAscii_def)
  have c: "same_modulo_case ''SELECT  Tpcc'' ''select  tpcc''"
    by (simp add: same_modulo_case_def case_pair_def upper_chars_def lower_chars_def)
  have d: "LOWER (table_db example_rows) = map toLowerChar"
      "REGEXP (table_db example_rows) = regexp_like"
    by (simp_all add: table_db_def healthy_db_def)
  have e: "same_text_columns row_test (row_test\<lparr>plan := ''STREAMAGG''\<rparr>)"
    by (simp add: same_text_columns_def same_modulo_case_def case_pair_def upper_chars_def
        lower_chars_def row_test_def list_all2_same)
  have f: "filter (\<lambda>c. \<not> isSpace c) ''SELECT  Tpcc'' = ''SELECTTpcc''"
    by (simp add: isSpace_def)
  show ?thesis
    using text_search_terms [OF a, of no_unicode "''digest''" 50 250 "[]" "[]" row_test
        "table_db example_rows" "''select  tpcc''" "row_test\<lparr>plan := ''STREAMAGG''\<rparr>" "''agg''"]
      b c d e f example_text_search(1)
    by (simp add: example_terms)
qed

text \<open>
  C6. For a non-empty list of schemas, \<open>queryStatements\<close> adds one condition on
  \<open>table_names\<close>, right after the window condition. Its pattern is the alternation of one
  pattern for each schema: a word boundary, every byte of the schema name as a literal
  (metacharacters escaped), and a literal dot. The pattern matches a subject exactly when
  the subject refers to one of the schemas: the name followed by a dot occurs in it at a
  word boundary. On a store whose \<open>REGEXP\<close> is this pattern search, a row is selected
  exactly when it is selected without the schemas and its \<open>table_names\<close> refers to one of
  them.
\<close>

theorem schema_filter_word_boundary:
  assumes "schemas \<noteq> []"
  shows "q_where (statementsQuery uc sel beginTime endTime schemas stmtTypes text)
           = SummaryWithin beginTime endTime
             # TableNamesRegexp (strings_Join (map schemaPattern schemas) ''|'')
             # tl (q_where (statementsQuery uc sel beginTime endTime [] stmtTypes text))
         \<and> tokens (strings_Join (map schemaPattern schemas) ''|'')
             = Some (join_bar (map schemaBranch schemas))
         \<and> (regexp_like (strings_Join (map schemaPattern schemas) ''|'') subject
              \<longleftrightarrow> (\<exists>schema \<in> set schemas. references_schema schema subject))
         \<and> (REGEXP db = regexp_like \<longrightarrow>
              (r \<in> set (selected db (statementsQuery uc sel beginTime endTime schemas stmtTypes text))
                 \<longleftrightarrow> r \<in> set (selected db (statementsQuery uc sel beginTime endTime [] stmtTypes text))
                      \<and> (\<exists>schema \<in> set schemas. references_schema schema (table_names r))))"
proof -
  have m: "regexp_like (strings_Join (map schemaPattern schemas) ''|'') x
             \<longleftrightarrow> (\<exists>schema \<in> set schemas. references_schema schema x)" for x
    by (simp add: regexAll_branches [OF assms] search_schemaBranch)
  have w: "q_where (statementsQuery uc sel beginTime endTime schemas stmtTypes text)
           = SummaryWithin beginTime endTime
             # TableNamesRegexp (strings_Join (map schemaPattern schemas) ''|'')
             # tl (q_where (statementsQuery uc sel beginTime endTime [] stmtTypes text))"
    using assms by (simp add: statementsQuery_where)
  have s: "REGEXP db = regexp_like \<longrightarrow>
              (r \<in> set (selected db (statementsQuery uc sel beginTime endTime schemas stmtTypes text))
                 \<longleftrightarrow> r \<in> set (selected db (statementsQuery uc sel beginTime endTime [] stmtTypes text))
                      \<and> (\<exists>schema \<in> set schemas. references_schema schema (table_names r)))"
    using assms m [of "table_names r"]
    by (auto simp add: statementsQuery_where selected_iff)
  show ?thesis
    using w tokens_regexAll [of schemas] m [of subject] s by blast
qed

theorem schema_filter_word_boundary_witness:
  "references_schema ''tpcc'' ''tpcc.orders''
   \<and> \<not> references_schema ''tpcc'' ''tpccx.orders''
   \<and> row_tpcc \<in> set (selected (table_db [row_tpcc, row_tpccx])
                       (statementsQuery no_unicode ''digest'' 50 250 [''tpcc''] [] []))
   \<and> row_tpccx \<notin> set (selected (table_db [row_tpcc, row_tpccx])
                        (statementsQuery no_unicode ''digest'' 50 250 [''tpcc''] [] []))"
proof -
  have a: "[''tpcc''] \<noteq> []" by simp
  have d: "REGEXP (table_db [row_tpcc, row_tpccx]) = regexp_like"
    by (simp add: table_db_def healthy_db_def)
  have t: "table_names row_tpcc = ''tpcc.orders''" "table_names row_tpccx = ''tpccx.orders''"
    by (simp_all add: row_tpcc_def row_tpccx_def)
  have u: "selected (table_db [row_tpcc, row_tpccx]) (statementsQuery no_unicode ''digest'' 50 250 [] [] [])
             = [row_tpcc, row_tpccx]"
    by (simp add: selected_iff statementsQuery_where table_db_def healthy_db_def row_tpcc_def
        row_tpccx_def)
  show ?thesis
    using schema_filter_word_boundary [OF a, of no_unicode "''digest''" 50 250 "[]" "[]" "''tpcc.orders''"
            "table_db [row_tpcc, row_tpccx]" row_tpcc]
      schema_filter_word_boundary [OF a, of no_unicode "''digest''" 50 250 "[]" "[]" "''tpccx.orders''"
            "table_db [row_tpcc, row_tpccx]" row_tpccx]
      regexp_like_examples(1,2) d t u
    by simp
qed

text \<open>
  C7. When the resolver, the projection builder and the store succeed, each of the three
  functions returns what the store makes of exactly the rows whose summary window lies
  within \<open>[beginTime, endTime]\<close>, both bounds included and in whole seconds, and that
  satisfy the other conditions of the call: \<open>queryStatements\<close> the groups of those rows by
  descending latency sum (with no schema, type or text filter: of all rows within the
  window), \<open>queryPlans\<close> the groups by plan digest of those rows with the given schema name
  and digest, \<open>queryPlanDetail\<close> what \<open>Scan\<close> leaves of those rows.
\<close>

theorem window_containment:
  assumes "GetTableColumnNames s statementsTable = Inr tableColumns"
    and "genSelectStmt s tableColumns reqFields = Inr sel1"
    and "genSelectStmt s tableColumns planFields = Inr sel2"
    and "genSelectStmt s tableColumns [''*''] = Inr sel3"
    and "\<And>q. select_error db q = None"
  shows "fst (queryStatements s uc db beginTime endTime schemas stmtTypes text reqFields)
           = Ok (order_rows (Some Agg_sum_latency_DESC) (statement_groups
               (filter (\<lambda>r. window_within beginTime endTime r
                           \<and> list_all (holds (REGEXP db) (LOWER db) r)
                               (tl (q_where (statementsQuery uc sel1 beginTime endTime schemas
                                               stmtTypes text))))
                  (table_rows db))))
         \<and> fst (queryStatements s uc db beginTime endTime [] [] [] reqFields)
           = Ok (order_rows (Some Agg_sum_latency_DESC) (statement_groups
               (filter (window_within beginTime endTime) (table_rows db))))
         \<and> fst (queryPlans s db beginTime endTime schemaName digestArg)
           = Ok (map aggregate (group_rows [Plan_digest]
               (filter (\<lambda>r. window_within beginTime endTime r
                           \<and> schema_name r = schemaName \<and> digest r = digestArg)
                  (table_rows db))))
         \<and> fst (queryPlanDetail s db beginTime endTime schemaName digestArg plans)
           = scanned (map single
               (filter (\<lambda>r. window_within beginTime endTime r
                           \<and> schema_name r = schemaName \<and> digest r = digestArg
                           \<and> (plans \<noteq> [] \<longrightarrow> plan_digest r \<in> set plans))
                  (table_rows db)))"
proof -
  have stm: "fst (queryStatements s uc db beginTime endTime sc ty tx reqFields)
      = Ok (order_rows (Some Agg_sum_latency_DESC) (statement_groups
          (selected db (statementsQuery uc sel1 beginTime endTime sc ty tx))))" for sc ty tx
    by (simp add: queryStatements_ok [OF assms(1,2)] db_Find_result [OF assms(5)]
        run_select_def statementsQuery_rest statement_groups_def)
  have e: "selected db (statementsQuery uc sel1 beginTime endTime [] [] [])
      = filter (window_within beginTime endTime) (table_rows db)"
    by (simp add: statements_selected statementsQuery_where)
  have pl: "fst (queryPlans s db beginTime endTime schemaName digestArg)
      = Ok (map aggregate (group_rows [Plan_digest]
          (selected db (plansQuery sel2 beginTime endTime schemaName digestArg))))"
    by (simp add: queryPlans_ok [OF assms(1,3)] db_Find_result [OF assms(5)]
        run_select_def plansQuery_def)
  have f: "filter (plan_detail_matches beginTime endTime schemaName digestArg plans) (table_rows db)
      = filter (\<lambda>r. window_within beginTime endTime r
                   \<and> schema_name r = schemaName \<and> digest r = digestArg
                   \<and> (plans \<noteq> [] \<longrightarrow> plan_digest r \<in> set plans))
          (table_rows db)"
    by (rule filter_cong) (auto simp add: plan_detail_matches_def window_within_def)
  have pd: "fst (queryPlanDetail s db beginTime endTime schemaName digestArg plans)
      = scanned (map single
          (filter (plan_detail_matches beginTime endTime schemaName digestArg plans)
             (table_rows db)))"
    using db_Scan_result [OF assms(5)]
    by (simp add: queryPlanDetail_ok [OF assms(1,4)] run_select_ungrouped planDetailQuery_rest
        planDetail_selected)
  show ?thesis
    using stm [of schemas stmtTypes "text"] stm [of "[]" "[]" "[]"] e pl pd
    by (simp add: statements_selected [symmetric] plans_selected f)
qed

theorem window_containment_witness:
  "fst (queryStatements star_service no_unicode (table_db [row_tpcc]) 50 250 [] [] [] [''digest''])
     = Ok [single row_tpcc]
   \<and> fst (queryStatements star_service no_unicode (table_db [row_tpcc]) 100 200 [] [] []
            [''digest''])
     = Ok [single row_tpcc]
   \<and> fst (queryStatements star_service no_unicode (table_db [row_tpcc]) 150 250 [] [] []
            [''digest''])
     = Ok []
   \<and> fst (queryPlans star_service (table_db [row_tpcc]) 50 250 ''tpcc'' ''d1'') = Ok [single row_tpcc]
   \<and> fst (queryPlans star_service (table_db [row_tpcc]) 150 250 ''tpcc'' ''d1'') = Ok []
   \<and> fst (queryPlanDetail star_service (table_db [row_tpcc]) 50 250 ''tpcc'' ''d1'' [])
     = (single row_tpcc, None)
   \<and> fst (queryPlanDetail star_service (table_db [row_tpcc]) 150 250 ''tpcc'' ''d1'' [])
     = (zero_Model, Some ErrRecordNotFound)"
proof -
  have a: "GetTableColumnNames star_service statementsTable = Inr planFields"
    by (simp add: star_service_def)
  have b: "genSelectStmt star_service planFields [''digest''] = Inr ''digest''"
    by (simp add: star_service_def)
  obtain sel2 where c: "genSelectStmt star_service planFields planFields = Inr sel2"
    by (simp add: star_service_def)
  have d: "genSelectStmt star_service planFields [''*''] = Inr ''*''"
    by (simp add: star_service_def)
  have e: "select_error (table_db [row_tpcc]) q = None" for q
    by (simp add: table_db_def healthy_db_def)
  have t: "table_rows (table_db [row_tpcc]) = [row_tpcc]"
    by (simp add: table_db_def)
  have w: "window_within 50 250 row_tpcc" "window_within 100 200 row_tpcc"
      "\<not> window_within 150 250 row_tpcc"
    by (simp_all add: window_within_def row_tpcc_def)
  have k: "schema_name row_tpcc = ''tpcc''" "digest row_tpcc = ''d1''"
    by (simp_all add: row_tpcc_def)
  have g: "statement_groups [row_tpcc] = [single row_tpcc]"
      "group_rows [Plan_digest] [row_tpcc] = [[row_tpcc]]"
      "statement_groups [] = []"
      "group_rows [Plan_digest] [] = []"
      "aggregate [row_tpcc] = single row_tpcc"
    by (simp_all add: statement_groups_def group_rows_def single_def)
  show ?thesis
    using window_containment [OF a b c d e, of no_unicode 50 250 "[]" "[]" "[]" "''tpcc''" "''d1''" "[]"]
      window_containment [OF a b c d e, of no_unicode 100 200 "[]" "[]" "[]" "''tpcc''" "''d1''" "[]"]
      window_containment [OF a b c d e, of no_unicode 150 250 "[]" "[]" "[]" "''tpcc''" "''d1''" "[]"]
    by (simp add: t w k g scanned_def statementsQuery_where)
qed




text \<open>
  C9. When the resolver, the projection builder and the store succeed, the result of
  \<open>queryStatements\<close> has one row for each statement fingerprint (schema name, digest) among
  the selected rows and no fingerprint twice; the latency sum of a result row is the sum
  of \<open>sum_latency\<close> over the selected rows of its fingerprint, whatever their plan; and the
  rows come by descending latency sum.
\<close>

theorem queryStatements_grouped_ordered:
  assumes "GetTableColumnNames s statementsTable = Inr tableColumns"
    and "genSelectStmt s tableColumns reqFields = Inr selectStmt"
    and "select_error db (statementsQuery uc selectStmt beginTime endTime schemas stmtTypes text)
           = None"
  shows "\<exists>ms. fst (queryStatements s uc db beginTime endTime schemas stmtTypes text reqFields) = Ok ms
           \<and> distinct (map fingerprint_of ms)
           \<and> set (map fingerprint_of ms)
               = set (map fingerprint
                   (selected db (statementsQuery uc selectStmt beginTime endTime schemas stmtTypes text)))
           \<and> list_all (\<lambda>m. AggSumLatency m = sum_list (map sum_latency
                 (filter (\<lambda>r. fingerprint r = fingerprint_of m)
                   (selected db (statementsQuery uc selectStmt beginTime endTime schemas stmtTypes text)))))
               ms
           \<and> sorted_wrt (\<lambda>m m'. AggSumLatency m \<ge> AggSumLatency m') ms"
proof -
  let ?q = "statementsQuery uc selectStmt beginTime endTime schemas stmtTypes text"
  let ?ms = "order_rows (Some Agg_sum_latency_DESC) (statement_groups (selected db ?q))"
  have run: "run_select db ?q = ?ms"
    by (simp add: run_select_def statementsQuery_rest statement_groups_def)
  have res: "fst (queryStatements s uc db beginTime endTime schemas stmtTypes text reqFields) = Ok ?ms"
    by (simp add: queryStatements_ok [OF assms(1,2)] db_Find_result [OF assms(3)] run)
  have d: "distinct (map fingerprint_of ?ms)"
    by (simp only: order_distinct_map statement_groups_distinct)
  have f: "set (map fingerprint_of ?ms) = set (map fingerprint (selected db ?q))"
    using statement_groups_fingerprints [of "selected db ?q"] by (simp only: set_map order_set)
  have a: "list_all (\<lambda>m. AggSumLatency m = sum_list (map sum_latency
                 (filter (\<lambda>r. fingerprint r = fingerprint_of m) (selected db ?q)))) ?ms"
    unfolding list_all_iff order_set using statement_groups_sum by blast
  show ?thesis
    using res d f a order_desc by blast
qed

theorem queryStatements_grouped_ordered_witness:
  "\<exists>ms. fst (queryStatements star_service no_unicode (table_db example_rows) 50 250 [] [] [] [''digest''])
           = Ok ms
     \<and> distinct (map fingerprint_of ms)
     \<and> set (map fingerprint_of ms)
         = set (map fingerprint
             (selected (table_db example_rows) (statementsQuery no_unicode ''digest'' 50 250 [] [] [])))
     \<and> list_all (\<lambda>m. AggSumLatency m = sum_list (map sum_latency
           (filter (\<lambda>r. fingerprint r = fingerprint_of m)
             (selected (table_db example_rows) (statementsQuery no_unicode ''digest'' 50 250 [] [] [])))))
         ms
     \<and> sorted_wrt (\<lambda>m m'. AggSumLatency m \<ge> AggSumLatency m') ms"
proof -
  have a: "GetTableColumnNames star_service statementsTable = Inr planFields"
    by (simp add: star_service_def)
  have b: "genSelectStmt star_service planFields [''digest''] = Inr ''digest''"
    by (simp add: star_service_def)
  have c: "select_error (table_db example_rows) q = None" for q
    by (simp add: table_db_def healthy_db_def)
  show ?thesis
    by (rule queryStatements_grouped_ordered [OF a b c])
qed

end
